theory Spec2Isabelle
  imports Complex_Main
begin

section \<open>Projection: utils/mercator-coordinate.js\<close>

text \<open>
  JavaScript numbers are modelled as real numbers; a coordinate array \<open>[a, b]\<close> is a pair.
  The Web-Mercator helper class has six static methods, translated one by one.
\<close>

definition mercatorXfromLng :: "real \<Rightarrow> real" where
  "mercatorXfromLng lng = (180 + lng) / 360"

definition mercatorYfromLat :: "real \<Rightarrow> real" where
  "mercatorYfromLat lat = (180 - (180 / pi * ln (tan (pi / 4 + lat * pi / 360)))) / 360"

definition fromLngLat :: "real \<times> real \<Rightarrow> real \<times> real" where
  "fromLngLat lngLat =
     (let x = mercatorXfromLng (fst lngLat);
          y = mercatorYfromLat (snd lngLat)
      in (- 1 + (x * 2), 1 - (y * 2)))"

definition lngFromMercatorX :: "real \<Rightarrow> real" where
  "lngFromMercatorX x = x * 360 - 180"

definition latFromMercatorY :: "real \<Rightarrow> real" where
  "latFromMercatorY y =
     (let y2 = 180 - y * 360
      in 360 / pi * arctan (exp (y2 * pi / 180)) - 90)"

definition fromXY :: "real \<times> real \<Rightarrow> real \<times> real" where
  "fromXY xy =
     (let lng = lngFromMercatorX ((1 + fst xy) / 2);
          lat = latFromMercatorY ((1 - snd xy) / 2)
      in (lng, lat))"

section \<open>Geometry triangulator: utils/map-utils.js\<close>

text \<open>
  A thrown JavaScript exception is a value of \<open>jsError\<close>, and a function that can throw
  returns a sum with the error on the left. \<open>TypeError\<close> is what reading a property of
  \<open>undefined\<close> throws; \<open>NetworkError\<close> is a rejected \<open>axios.get\<close>.
\<close>

datatype jsError = TypeError | NetworkError

type_synonym lngLat = "real \<times> real"

text \<open>
  A vertex buffer entry is a number or \<open>NaN\<close>; \<open>None\<close> stands for \<open>NaN\<close>, which is what
  arithmetic on an \<open>undefined\<close> array read produces.
\<close>

type_synonym jsnum = "real option"

text \<open>A GeoJSON geometry: its \<open>type\<close> string is the constructor, its \<open>coordinates\<close> the argument.\<close>

datatype geometry =
    Point lngLat
  | LineString "lngLat list"
  | MultiLineString "lngLat list list"
  | Polygon "lngLat list list"
  | MultiPolygon "lngLat list list list"
  | Unsupported string

text \<open>The spread \<open>...MercatorCoordinate.fromLngLat(c)\<close>: the two projected numbers of a point.\<close>

definition projected :: "lngLat \<Rightarrow> real list" where
  "projected c = [fst (fromLngLat c), snd (fromLngLat c)]"

text \<open>
  \<open>verticesFromLine\<close>: the seed is the first segment; the loop runs \<open>i\<close> from 2 and pushes
  the last pushed point again before every further point. Reading \<open>coordinates[0]\<close> or
  \<open>coordinates[1]\<close> of a shorter array gives \<open>undefined\<close>, on which \<open>fromLngLat\<close> throws.
\<close>

function verticesFromLine_loop :: "lngLat list \<Rightarrow> nat \<Rightarrow> real list \<Rightarrow> real list" where
  "verticesFromLine_loop coordinates i vertices =
     (if i < length coordinates then
        (let prevX = vertices ! (length vertices - 2);
             prevY = vertices ! (length vertices - 1)
         in verticesFromLine_loop coordinates (i + 1)
              ((vertices @ [prevX, prevY]) @ projected (coordinates ! i)))
      else vertices)"
  by pat_completeness auto
termination
  by (relation "measure (\<lambda>(coordinates, i, vertices). length coordinates - i)") auto

declare verticesFromLine_loop.simps [simp del]

definition verticesFromLine :: "lngLat list \<Rightarrow> jsError + real list" where
  "verticesFromLine coordinates =
     (if length coordinates < 2 then Inl TypeError
      else Inr (verticesFromLine_loop coordinates 2
                  (projected (coordinates ! 0) @ projected (coordinates ! 1))))"

text \<open>\<open>append\<close>: the elements of \<open>arr2\<close> are written one by one at the end of \<open>arr1\<close>.\<close>

definition append_js :: "'a list \<Rightarrow> 'a list \<Rightarrow> 'a list" where
  "append_js arr1 arr2 = fold (\<lambda>n arr. arr @ [n]) arr2 arr1"

text \<open>
  The triangulation \<open>earcut(vertices, holes, dim)\<close> is a function of the imported earcut
  package; it is a parameter of everything that calls it: from the flat coordinates, the
  start indices of the holes and the dimension it returns the vertex indices of the
  triangles.
\<close>

type_synonym earcut = "real list \<Rightarrow> nat list \<Rightarrow> nat \<Rightarrow> nat list"

text \<open>
  Modelled from the spec: \<open>earcut.flatten\<close> is not under src/ (it belongs to the imported
  earcut package). It prepares the "ring set passed to the triangulation that honors holes":
  the coordinates of all rings in one flat array, and for every ring after the first the
  index of its first point (the sum of the lengths of the rings before it). It reads
  \<open>data[0][0].length\<close> first, which throws when there is no first ring or no first point.
\<close>

function earcut_flatten_loop ::
  "lngLat list list \<Rightarrow> nat \<Rightarrow> nat \<Rightarrow> real list \<Rightarrow> nat list \<Rightarrow> real list \<times> nat list" where
  "earcut_flatten_loop data i holeIndex vertices holes =
     (if i < length data then
        (if 0 < i then
           earcut_flatten_loop data (i + 1) (holeIndex + length (data ! (i - 1)))
             (vertices @ concat (map (\<lambda>p. [fst p, snd p]) (data ! i)))
             (holes @ [holeIndex + length (data ! (i - 1))])
         else
           earcut_flatten_loop data (i + 1) holeIndex
             (vertices @ concat (map (\<lambda>p. [fst p, snd p]) (data ! i))) holes)
      else (vertices, holes))"
  by pat_completeness auto
termination
  by (relation "measure (\<lambda>(data, i, holeIndex, vertices, holes). length data - i)") auto

declare earcut_flatten_loop.simps [simp del]

definition earcut_flatten :: "lngLat list list \<Rightarrow> jsError + (real list \<times> nat list)" where
  "earcut_flatten data =
     (case data of
        [] \<Rightarrow> Inl TypeError
      | ring # _ \<Rightarrow>
          (case ring of
             [] \<Rightarrow> Inl TypeError
           | _ # _ \<Rightarrow> Inr (earcut_flatten_loop data 0 0 [] [])))"

text \<open>
  One step of the loop of \<open>verticesFromPolygon\<close>: the triangle index \<open>point\<close> is resolved to
  \<open>data.vertices[point * 2]\<close> and \<open>data.vertices[point * 2 + 1]\<close> and projected. The flat
  array has even length, so either both reads are in range or both give \<open>undefined\<close>, and
  then both projected numbers are \<open>NaN\<close>.
\<close>

definition projectedAt :: "real list \<Rightarrow> nat \<Rightarrow> jsnum list" where
  "projectedAt vertices point =
     (if point * 2 + 1 < length vertices
      then map Some (projected (vertices ! (point * 2), vertices ! (point * 2 + 1)))
      else [None, None])"

definition verticesFromPolygon :: "earcut \<Rightarrow> lngLat list list \<Rightarrow> jsError + jsnum list" where
  "verticesFromPolygon earcut coordinates =
     (case earcut_flatten coordinates of
        Inl e \<Rightarrow> Inl e
      | Inr data \<Rightarrow>
          (let triangles = earcut (fst data) (snd data) 2
           in Inr (concat (map (projectedAt (fst data)) triangles))))"

text \<open>
  The two \<open>forEach\<close> loops of \<open>geometryToVertices\<close>, with \<open>positions\<close> as the accumulator.
  An exception thrown in the callback leaves the loop. For an empty member \<open>polygon\<close>,
  \<open>polygon[0]\<close> is \<open>undefined\<close> and \<open>earcut.flatten([undefined])\<close> throws.
\<close>

fun multiPolygon_forEach ::
  "earcut \<Rightarrow> lngLat list list list \<Rightarrow> jsnum list \<Rightarrow> jsError + jsnum list" where
  "multiPolygon_forEach earcut [] positions = Inr positions"
| "multiPolygon_forEach earcut (polygon # rest) positions =
     (case polygon of
        [] \<Rightarrow> Inl TypeError
      | outer # _ \<Rightarrow>
          (case verticesFromPolygon earcut [outer] of
             Inl e \<Rightarrow> Inl e
           | Inr vs \<Rightarrow> multiPolygon_forEach earcut rest (append_js positions vs)))"

fun multiLineString_forEach :: "lngLat list list \<Rightarrow> jsnum list \<Rightarrow> jsError + jsnum list" where
  "multiLineString_forEach [] positions = Inr positions"
| "multiLineString_forEach (lineString # rest) positions =
     (case verticesFromLine lineString of
        Inl e \<Rightarrow> Inl e
      | Inr vs \<Rightarrow> multiLineString_forEach rest (append_js positions (map Some vs)))"

fun geometryToVertices :: "earcut \<Rightarrow> geometry \<Rightarrow> jsError + jsnum list" where
  "geometryToVertices earcut (Polygon coordinates) = verticesFromPolygon earcut coordinates"
| "geometryToVertices earcut (MultiPolygon coordinates) =
     multiPolygon_forEach earcut coordinates []"
| "geometryToVertices earcut (LineString coordinates) =
     (case verticesFromLine coordinates of Inl e \<Rightarrow> Inl e | Inr vs \<Rightarrow> Inr (map Some vs))"
| "geometryToVertices earcut (MultiLineString coordinates) =
     multiLineString_forEach coordinates []"
| "geometryToVertices earcut (Point coordinates) = Inr (map Some (projected coordinates))"
| "geometryToVertices earcut (Unsupported t) = Inr []"

section \<open>Tile decoder: fetchTile in utils/map-utils.js\<close>

text \<open>The primitive names \<open>'polygon'\<close>, \<open>'point'\<close>, \<open>'line'\<close> and \<open>'unknown'\<close>.\<close>

datatype primitive = PrimPolygon | PrimPoint | PrimLine | PrimUnknown

fun getLayerPrimitive :: "geometry \<Rightarrow> primitive" where
  "getLayerPrimitive (Polygon c) = PrimPolygon"
| "getLayerPrimitive (MultiPolygon c) = PrimPolygon"
| "getLayerPrimitive (Point c) = PrimPoint"
| "getLayerPrimitive (LineString c) = PrimLine"
| "getLayerPrimitive (MultiLineString c) = PrimLine"
| "getLayerPrimitive (Unsupported t) = PrimUnknown"

text \<open>One entry of \<open>tileData\<close>: \<open>{ layer, type, vertices }\<close>.\<close>

record featureSet =
  fs_layer :: string
  fs_type :: primitive
  fs_vertices :: "jsnum list"

text \<open>
  A decoded vector tile: \<open>vectorTile.layers[name]\<close> is absent, or the layer with its features,
  each given by the geometry of its \<open>toGeoJSON(x, y, z)\<close> (a function of the imported
  vector-tile package).
\<close>

type_synonym vectorTile = "string \<Rightarrow> geometry list option"

text \<open>
  The loop over the features of one layer, with the three buckets as the accumulator; a
  feature of unknown primitive is skipped, an exception of \<open>geometryToVertices\<close> leaves the
  loop.
\<close>

fun fetchTile_features ::
  "earcut \<Rightarrow> geometry list \<Rightarrow> jsnum list \<times> jsnum list \<times> jsnum list
   \<Rightarrow> jsError + (jsnum list \<times> jsnum list \<times> jsnum list)" where
  "fetchTile_features earcut [] buckets = Inr buckets"
| "fetchTile_features earcut (geojson # rest) (polygons, points, lines) =
     (case getLayerPrimitive geojson of
        PrimPolygon \<Rightarrow>
          (case geometryToVertices earcut geojson of
             Inl e \<Rightarrow> Inl e
           | Inr vs \<Rightarrow> fetchTile_features earcut rest (polygons @ vs, points, lines))
      | PrimPoint \<Rightarrow>
          (case geometryToVertices earcut geojson of
             Inl e \<Rightarrow> Inl e
           | Inr vs \<Rightarrow> fetchTile_features earcut rest (polygons, points @ vs, lines))
      | PrimLine \<Rightarrow>
          (case geometryToVertices earcut geojson of
             Inl e \<Rightarrow> Inl e
           | Inr vs \<Rightarrow> fetchTile_features earcut rest (polygons, points, lines @ vs))
      | PrimUnknown \<Rightarrow> fetchTile_features earcut rest (polygons, points, lines))"

text \<open>
  The loop \<open>for (const layer in layers)\<close> over the keys of the requested layers, with
  \<open>tileData\<close> as the accumulator.
\<close>

fun fetchTile_layers ::
  "earcut \<Rightarrow> vectorTile \<Rightarrow> string list \<Rightarrow> featureSet list \<Rightarrow> jsError + featureSet list" where
  "fetchTile_layers earcut tile [] tileData = Inr tileData"
| "fetchTile_layers earcut tile (layer # rest) tileData =
     (case tile layer of
        None \<Rightarrow> fetchTile_layers earcut tile rest tileData
      | Some features \<Rightarrow>
          (case fetchTile_features earcut features ([], [], []) of
             Inl e \<Rightarrow> Inl e
           | Inr (polygons, points, lines) \<Rightarrow>
               fetchTile_layers earcut tile rest
                 (tileData @
                   [\<lparr>fs_layer = layer, fs_type = PrimPolygon, fs_vertices = polygons\<rparr>,
                    \<lparr>fs_layer = layer, fs_type = PrimPoint, fs_vertices = points\<rparr>,
                    \<lparr>fs_layer = layer, fs_type = PrimLine, fs_vertices = lines\<rparr>])))"

text \<open>
  \<open>fetchTile\<close>. The argument \<open>response\<close> is the outcome of the request and of the parse of its
  body (\<open>axios.get\<close>, \<open>new Protobuf\<close>, \<open>new VectorTile\<close>, all imported): the decoded tile,
  or the exception thrown. \<open>layers\<close> are the keys of the \<open>layers\<close> option, in enumeration order.
\<close>

definition fetchTile ::
  "earcut \<Rightarrow> string list \<Rightarrow> jsError + vectorTile \<Rightarrow> jsError + featureSet list" where
  "fetchTile earcut layers response =
     (case response of
        Inl e \<Rightarrow> Inl e
      | Inr tile \<Rightarrow> fetchTile_layers earcut tile layers [])"

text \<open>
  No feature of a requested layer makes \<open>geometryToVertices\<close> throw (a line of fewer than two
  points, a polygon without a first point).
\<close>

definition decodes :: "earcut \<Rightarrow> vectorTile \<Rightarrow> string list \<Rightarrow> bool" where
  "decodes earcut tile layers =
     list_all (\<lambda>layer. case tile layer of
                 None \<Rightarrow> True
               | Some features \<Rightarrow> list_all (\<lambda>g. \<not> isl (geometryToVertices earcut g)) features)
       layers"

section \<open>Tile keys: the strings of \<open>t.join('/')\<close> and \<open>tile.split('/').map(Number)\<close>\<close>

text \<open>
  A tile is the array \<open>[x, y, z]\<close>, here a triple of integers. Tile coordinates are far below
  \<open>2^53\<close>, where JavaScript numbers are exact integers and print in decimal notation.
\<close>

type_synonym tile = "int \<times> int \<times> int"

definition digitChar :: "nat \<Rightarrow> char" where
  "digitChar d = ''0123456789'' ! d"

function showNat :: "nat \<Rightarrow> string" where
  "showNat n = (if n < 10 then [digitChar n] else showNat (n div 10) @ [digitChar (n mod 10)])"
  by pat_completeness auto
termination
  by (relation "measure id") auto

declare showNat.simps [simp del]

text \<open>The string of an integer-valued number, as \<open>join\<close> prints it.\<close>

definition showInt :: "int \<Rightarrow> string" where
  "showInt i = (if i < 0 then CHR ''-'' # showNat (nat (- i)) else showNat (nat i))"

definition joinTile :: "tile \<Rightarrow> string" where
  "joinTile t =
     (case t of (x, y, z) \<Rightarrow> showInt x @ ''/'' @ showInt y @ ''/'' @ showInt z)"

text \<open>\<open>s.split('/')\<close>: the pieces between the slashes (one piece when there is no slash).\<close>

fun splitSlash :: "string \<Rightarrow> string list" where
  "splitSlash [] = [[]]"
| "splitSlash (c # cs) =
     (if c = CHR ''/'' then [] # splitSlash cs
      else (case splitSlash cs of
              piece # pieces \<Rightarrow> (c # piece) # pieces
            | [] \<Rightarrow> [[c]]))"

definition isDigit :: "char \<Rightarrow> bool" where
  "isDigit c = (48 \<le> (of_char c :: nat) \<and> (of_char c :: nat) \<le> 57)"

definition digitsVal :: "string \<Rightarrow> nat" where
  "digitsVal s = foldl (\<lambda>acc c. 10 * acc + (of_char c - 48)) 0 s"

text \<open>
  \<open>Number(s)\<close> on the strings this program passes to it, the pieces of a joined tile: a
  decimal integer with an optional minus sign gives its value, the empty string gives 0.
  \<open>None\<close> is \<open>NaN\<close>; the other spellings that \<open>Number\<close> accepts (exponents, hexadecimal,
  fractions, surrounding blanks) never come out of \<open>join\<close> on integers and are not modelled.
\<close>

definition js_Number :: "string \<Rightarrow> int option" where
  "js_Number s =
     (case s of
        [] \<Rightarrow> Some 0
      | c # cs \<Rightarrow>
          (if c = CHR ''-'' then
             (if cs \<noteq> [] \<and> list_all isDigit cs then Some (- int (digitsVal cs)) else None)
           else if list_all isDigit s then Some (int (digitsVal s))
           else None))"

text \<open>
  \<open>const [x, y, z] = tile.split('/').map(Number)\<close>: a missing piece is \<open>undefined\<close>, which
  like \<open>NaN\<close> fails every comparison of the range filter, so both are \<open>None\<close>.
\<close>

definition splitTile :: "string \<Rightarrow> int option \<times> int option \<times> int option" where
  "splitTile s =
     (case map js_Number (splitSlash s) of
        x # y # z # _ \<Rightarrow> (x, y, z)
      | [x, y] \<Rightarrow> (x, y, None)
      | [x] \<Rightarrow> (x, None, None)
      | [] \<Rightarrow> (None, None, None))"

section \<open>The tile pyramid (package tilebelt)\<close>

text \<open>
  Modelled from the spec: \<open>tilebelt.getParent\<close> is not under src/ (it belongs to the imported
  tilebelt package). It gives the direct parent of a tile, one level up in the zoom pyramid:
  both coordinates shifted right by one bit (halved, rounding down) and the zoom lowered by
  one.
\<close>

definition getParent :: "tile \<Rightarrow> tile" where
  "getParent t = (case t of (x, y, z) \<Rightarrow> (x div 2, y div 2, z - 1))"

text \<open>
  Modelled from the spec: \<open>tilebelt.getChildren\<close> is not under src/ (same package). It gives
  the four children that cover a tile one level down, in the package's order.
\<close>

definition getChildren :: "tile \<Rightarrow> tile list" where
  "getChildren t =
     (case t of (x, y, z) \<Rightarrow>
        [(x * 2, y * 2, z + 1), (x * 2 + 1, y * 2, z + 1),
         (x * 2 + 1, y * 2 + 1, z + 1), (x * 2, y * 2 + 1, z + 1)])"

section \<open>The map: src/index.js\<close>

definition TILE_SIZE :: real where
  "TILE_SIZE = 512"

definition MAX_TILE_ZOOM :: int where
  "MAX_TILE_ZOOM = 14"

text \<open>
  A value of the cache object \<open>this.tiles\<close>: \<open>undefined\<close>, or an array of feature sets. Reading
  a key that is not there gives \<open>undefined\<close> as well. Every array is truthy, also the empty
  one; \<open>undefined\<close> is falsy.
\<close>

datatype tileEntry = Undefined | Data "featureSet list"

type_synonym tileCache = "string \<Rightarrow> tileEntry option"

definition getTile :: "tileCache \<Rightarrow> string \<Rightarrow> tileEntry" where
  "getTile tiles key = (case tiles key of None \<Rightarrow> Undefined | Some v \<Rightarrow> v)"

text \<open>The assignment \<open>this.tiles[key] = v\<close>.\<close>

definition setTile :: "tileCache \<Rightarrow> string \<Rightarrow> tileEntry \<Rightarrow> tileCache" where
  "setTile cache key v = cache(key \<mapsto> v)"

fun truthy :: "tileEntry \<Rightarrow> bool" where
  "truthy Undefined = False"
| "truthy (Data featureSets) = True"

text \<open>The message \<open>{ tile, layers, url }\<close> posted to the tile worker.\<close>

record message =
  msg_tile :: string
  msg_layers :: "string list"
  msg_url :: string

record camera =
  cam_x :: real
  cam_y :: real
  cam_zoom :: real

text \<open>
  The fields of the map object that the tile engine reads and writes; the \<open>opt_\<close> fields
  are those of \<open>mapOptions\<close>, \<open>opt_layers\<close> being the keys of \<open>mapOptions.layers\<close>. \<open>posted\<close>
  is the sequence of messages given to \<open>tileWorker.postMessage\<close> so far.
\<close>

record webGLMap =
  opt_minZoom :: real
  opt_maxZoom :: real
  opt_tileBuffer :: int
  opt_layers :: "string list"
  opt_tileServerURL :: string
  canvas_width :: real
  canvas_height :: real
  pixelRatio :: real
  camera :: camera
  tiles :: tileCache
  tilesInView :: "tile list"
  bufferedTiles :: "tile list"
  posted :: "message list"

text \<open>\<open>getBounds\<close>: the longitude/latitude box \<open>[west, south, east, north]\<close> of the viewport.\<close>

definition getBounds :: "webGLMap \<Rightarrow> real \<times> real \<times> real \<times> real" where
  "getBounds m =
     (let zoomScale = 2 powr cam_zoom (camera m);
          px = (1 + cam_x (camera m)) / pixelRatio m;
          py = (1 - cam_y (camera m)) / pixelRatio m;
          wx = px * TILE_SIZE;
          wy = py * TILE_SIZE;
          zx = wx * zoomScale;
          zy = wy * zoomScale;
          x1 = (zx - canvas_width m / 2) / zoomScale / TILE_SIZE;
          y1 = (zy + canvas_height m / 2) / zoomScale / TILE_SIZE;
          x2 = (zx + canvas_width m / 2) / zoomScale / TILE_SIZE;
          y2 = (zy - canvas_height m / 2) / zoomScale / TILE_SIZE
      in (lngFromMercatorX x1, latFromMercatorY y1, lngFromMercatorX x2, latFromMercatorY y2))"

text \<open>\<open>Math.trunc\<close>: rounding towards zero.\<close>

definition js_trunc :: "real \<Rightarrow> int" where
  "js_trunc r = (if r < 0 then \<lceil>r\<rceil> else \<lfloor>r\<rfloor>)"

text \<open>The integer tile zoom of \<open>updateTiles\<close>.\<close>

definition tileZoom :: "webGLMap \<Rightarrow> int" where
  "tileZoom m = min (js_trunc (cam_zoom (camera m))) MAX_TILE_ZOOM"


subsection \<open>updateTiles\<close>

text \<open>The two nested loops that fill \<open>tilesInView\<close>.\<close>

definition inViewTiles :: "int \<Rightarrow> int \<Rightarrow> int \<Rightarrow> int \<Rightarrow> int \<Rightarrow> tile list" where
  "inViewTiles minX maxX minY maxY z =
     concat (map (\<lambda>x. map (\<lambda>y. (x, y, z)) [minY..maxY]) [minX..maxX])"

text \<open>
  The two nested loops that fill \<open>bufferedTiles\<close>: every tile of the rectangle widened by
  \<open>tileBuffer\<close>, each followed by its parent and by the parent of its parent.
\<close>

definition bufferTiles :: "int \<Rightarrow> int \<Rightarrow> int \<Rightarrow> int \<Rightarrow> int \<Rightarrow> int \<Rightarrow> tile list" where
  "bufferTiles minX maxX minY maxY z buffer =
     concat (map (\<lambda>bufX.
        concat (map (\<lambda>bufY.
           [(bufX, bufY, z), getParent (bufX, bufY, z), getParent (getParent (bufX, bufY, z))])
          [minY - buffer..maxY + buffer]))
       [minX - buffer..maxX + buffer])"

text \<open>\<open>[...new Set(xs)]\<close>: the elements of \<open>xs\<close> in the order of their first occurrence.\<close>

definition newSet :: "'a list \<Rightarrow> 'a list" where
  "newSet xs = fold (\<lambda>x seen. if x \<in> set seen then seen else seen @ [x]) xs []"

text \<open>\<open>Math.pow(2, z)\<close> for an integer \<open>z\<close>.\<close>

definition js_pow2 :: "int \<Rightarrow> real" where
  "js_pow2 z = (if 0 \<le> z then 2 ^ nat z else 1 / 2 ^ nat (- z))"

text \<open>The predicate of the range filter (\<open>validX && validY && validZ\<close>).\<close>

definition inRange :: "string \<Rightarrow> bool" where
  "inRange key =
     (case splitTile key of
        (Some x, Some y, Some z) \<Rightarrow>
          (let N = js_pow2 z;
               validX = (0 \<le> x \<and> real_of_int x < N);
               validY = (0 \<le> y \<and> real_of_int y < N);
               validZ = (0 \<le> z \<and> z \<le> MAX_TILE_ZOOM)
           in validX \<and> validY \<and> validZ)
      | _ \<Rightarrow> False)"

text \<open>The load list before and after the removal of duplicates and the range filter.\<close>

definition loadCandidates :: "tile list \<Rightarrow> tile list \<Rightarrow> string list" where
  "loadCandidates inView buffered = map joinTile inView @ map joinTile buffered"

definition tilesToLoad :: "tile list \<Rightarrow> tile list \<Rightarrow> string list" where
  "tilesToLoad inView buffered = filter inRange (newSet (loadCandidates inView buffered))"

text \<open>
  The dispatch loop \<open>tilesToLoad.forEach\<close>: a key whose cache entry is truthy is skipped;
  otherwise the empty array is stored as a hold and the request is posted to the worker.
\<close>

fun loadTiles :: "string list \<Rightarrow> string \<Rightarrow> string list \<Rightarrow> webGLMap \<Rightarrow> webGLMap" where
  "loadTiles ls url [] m = m"
| "loadTiles ls url (key # rest) m =
     (if truthy (getTile (tiles m) key) then loadTiles ls url rest m
      else loadTiles ls url rest
             (m\<lparr>tiles := setTile (tiles m) key (Data []),
                posted := posted m @ [\<lparr>msg_tile = key, msg_layers = ls, msg_url = url\<rparr>]\<rparr>))"

text \<open>
  The tile rectangle \<open>(minX, maxX, minY, maxY, z)\<close> of the viewport. \<open>tilebelt.pointToTile\<close>
  (imported package) is a parameter: from a longitude, a latitude and a zoom it gives a tile.
\<close>

definition tileRange ::
  "(real \<Rightarrow> real \<Rightarrow> int \<Rightarrow> tile) \<Rightarrow> webGLMap \<Rightarrow> int \<times> int \<times> int \<times> int \<times> int" where
  "tileRange pointToTile m =
     (case getBounds m of (west, south, east, north) \<Rightarrow>
        (let z = tileZoom m;
             minTile = pointToTile west north z;
             maxTile = pointToTile east south z
         in (max (fst minTile) 0, fst maxTile, max (fst (snd minTile)) 0, fst (snd maxTile), z)))"

definition updateTiles :: "(real \<Rightarrow> real \<Rightarrow> int \<Rightarrow> tile) \<Rightarrow> webGLMap \<Rightarrow> webGLMap" where
  "updateTiles pointToTile m =
     (case tileRange pointToTile m of (minX, maxX, minY, maxY, z) \<Rightarrow>
        (let inView = inViewTiles minX maxX minY maxY z;
             buffered = bufferTiles minX maxX minY maxY z (opt_tileBuffer m)
         in loadTiles (opt_layers m) (opt_tileServerURL m) (tilesToLoad inView buffered)
              (m\<lparr>tilesInView := inView, bufferedTiles := buffered\<rparr>)))"

subsection \<open>The tile worker and its message handler\<close>

text \<open>
  \<open>workers/tile-worker.js\<close>: the reply to a request is \<open>{ tile, tileData }\<close>, or \<open>{ tile }\<close>
  (\<open>tileData\<close> undefined) when \<open>fetchTile\<close> threw.
\<close>

definition tileWorker :: "earcut \<Rightarrow> message \<Rightarrow> jsError + vectorTile \<Rightarrow> string \<times> tileEntry" where
  "tileWorker earcut msg response =
     (case fetchTile earcut (msg_layers msg) response of
        Inr tileData \<Rightarrow> (msg_tile msg, Data tileData)
      | Inl e \<Rightarrow> (msg_tile msg, Undefined))"

definition handleTileWorker :: "webGLMap \<Rightarrow> string \<times> tileEntry \<Rightarrow> webGLMap" where
  "handleTileWorker m workerEvent =
     (case workerEvent of (key, tileData) \<Rightarrow> m\<lparr>tiles := setTile (tiles m) key tileData\<rparr>)"

subsection \<open>Placeholder tiles\<close>

text \<open>\<open>e?.length > 0\<close> and \<open>e || []\<close> on a cache value.\<close>

fun lengthPositive :: "tileEntry \<Rightarrow> bool" where
  "lengthPositive Undefined = False"
| "lengthPositive (Data featureSets) = (featureSets \<noteq> [])"

fun orEmpty :: "tileEntry \<Rightarrow> featureSet list" where
  "orEmpty Undefined = []"
| "orEmpty (Data featureSets) = featureSets"

definition getPlaceholderTile :: "tileCache \<Rightarrow> tile \<Rightarrow> featureSet list" where
  "getPlaceholderTile cache t =
     (let parent = joinTile (getParent t);
          parentFeatureSet = getTile cache parent
      in if lengthPositive parentFeatureSet then orEmpty parentFeatureSet
         else fold (\<lambda>child childFeatureSets.
                      (let featureSet = getTile cache child
                       in if lengthPositive featureSet
                          then childFeatureSets @ orEmpty featureSet
                          else childFeatureSets))
                (map joinTile (getChildren t)) [])"

text \<open>
  The feature sets that \<open>draw\<close> renders for a tile in view: the placeholder when the entry is
  the empty array, else the entry (nothing when it is \<open>undefined\<close>).
\<close>

definition drawFeatureSets :: "tileCache \<Rightarrow> tile \<Rightarrow> featureSet list" where
  "drawFeatureSets cache t =
     (let featureSets = getTile cache (joinTile t)
      in if featureSets = Data [] then getPlaceholderTile cache t
         else orEmpty featureSets)"

section \<open>Notions used in the statements\<close>

text \<open>The segment from point \<open>j\<close> to point \<open>j + 1\<close>, as four floats.\<close>

definition segment :: "lngLat list \<Rightarrow> nat \<Rightarrow> real list" where
  "segment coordinates j = projected (coordinates ! j) @ projected (coordinates ! (j + 1))"

text \<open>The flat coordinates of a ring, and the start indices of the rings after the first.\<close>

definition flatCoords :: "lngLat list \<Rightarrow> real list" where
  "flatCoords ring = concat (map (\<lambda>p. [fst p, snd p]) ring)"

definition holeStarts :: "lngLat list list \<Rightarrow> nat list" where
  "holeStarts data = map (\<lambda>j. sum_list (map length (take j data))) [1..<length data]"

text \<open>The layer and primitive of the three entries pushed for one layer.\<close>

definition layerTrio :: "string \<Rightarrow> (string \<times> primitive) list" where
  "layerTrio l = [(l, PrimPolygon), (l, PrimPoint), (l, PrimLine)]"

definition entryKey :: "featureSet \<Rightarrow> string \<times> primitive" where
  "entryKey fs = (fs_layer fs, fs_type fs)"

text \<open>The tile key invariant of the data model.\<close>

definition validTile :: "tile \<Rightarrow> bool" where
  "validTile t =
     (case t of (x, y, z) \<Rightarrow>
        0 \<le> x \<and> x < 2 ^ nat z \<and> 0 \<le> y \<and> y < 2 ^ nat z \<and> 0 \<le> z \<and> z \<le> MAX_TILE_ZOOM)"

text \<open>The keys for which a pass over \<open>ks\<close> posts a request, in order.\<close>

fun requested :: "tileCache \<Rightarrow> string list \<Rightarrow> string list" where
  "requested cache [] = []"
| "requested cache (key # rest) =
     (if truthy (getTile cache key) then requested cache rest
      else key # requested (setTile cache key (Data [])) rest)"

text \<open>
  The tiles in view, the buffered tiles and the load list that a pass of \<open>updateTiles\<close>
  computes from the state \<open>m\<close>.
\<close>

definition viewTiles :: "(real \<Rightarrow> real \<Rightarrow> int \<Rightarrow> tile) \<Rightarrow> webGLMap \<Rightarrow> tile list" where
  "viewTiles pointToTile m =
     (case tileRange pointToTile m of (minX, maxX, minY, maxY, z) \<Rightarrow>
        inViewTiles minX maxX minY maxY z)"

definition bufTiles :: "(real \<Rightarrow> real \<Rightarrow> int \<Rightarrow> tile) \<Rightarrow> webGLMap \<Rightarrow> tile list" where
  "bufTiles pointToTile m =
     (case tileRange pointToTile m of (minX, maxX, minY, maxY, z) \<Rightarrow>
        bufferTiles minX maxX minY maxY z (opt_tileBuffer m))"

definition passLoadList :: "(real \<Rightarrow> real \<Rightarrow> int \<Rightarrow> tile) \<Rightarrow> webGLMap \<Rightarrow> string list" where
  "passLoadList pointToTile m = tilesToLoad (viewTiles pointToTile m) (bufTiles pointToTile m)"

text \<open>The messages that a pass adds to \<open>posted\<close>.\<close>

definition dispatched :: "(real \<Rightarrow> real \<Rightarrow> int \<Rightarrow> tile) \<Rightarrow> webGLMap \<Rightarrow> message list" where
  "dispatched pointToTile m = drop (length (posted m)) (posted (updateTiles pointToTile m))"

text \<open>
  The map of the README's usage example, as the constructor sets it up before its first call
  of \<open>updateTiles\<close>.
\<close>

definition exampleMap :: webGLMap where
  "exampleMap =
     \<lparr>opt_minZoom = 4, opt_maxZoom = 18, opt_tileBuffer = 1,
      opt_layers = [''water'', ''landcover'', ''park'', ''building''],
      opt_tileServerURL = ''https://maps.ckochis.com/data/v3/{z}/{x}/{y}.pbf'',
      canvas_width = 800, canvas_height = 600, pixelRatio = 2,
      camera = \<lparr>cam_x = fst (fromLngLat (- 73.9834558, 40.6932723)),
                cam_y = snd (fromLngLat (- 73.9834558, 40.6932723)),
                cam_zoom = 13\<rparr>,
      tiles = Map.empty, tilesInView = [], bufferedTiles = [], posted = []\<rparr>"

text \<open>
  What happens to the map over time: a pass of \<open>updateTiles\<close> after the handlers
  \<open>handleMove\<close> or \<open>handleZoom\<close> (or the constructor) have set the camera, or a reply of the
  worker handled by \<open>handleTileWorker\<close>.
\<close>

datatype event = Pass camera | Reply string tileEntry

fun step :: "(real \<Rightarrow> real \<Rightarrow> int \<Rightarrow> tile) \<Rightarrow> webGLMap \<Rightarrow> event \<Rightarrow> webGLMap" where
  "step pointToTile m (Pass c) = updateTiles pointToTile (m\<lparr>camera := c\<rparr>)"
| "step pointToTile m (Reply key tileData) = handleTileWorker m (key, tileData)"

fun run :: "(real \<Rightarrow> real \<Rightarrow> int \<Rightarrow> tile) \<Rightarrow> webGLMap \<Rightarrow> event list \<Rightarrow> webGLMap" where
  "run pointToTile m [] = m"
| "run pointToTile m (e # es) = run pointToTile (step pointToTile m e) es"

text \<open>The event is the reply to a request for the key \<open>k\<close>.\<close>

fun resolves :: "string \<Rightarrow> event \<Rightarrow> bool" where
  "resolves k (Pass c) = False"
| "resolves k (Reply key tileData) = (key = k)"

text \<open>The number of requests for the key \<open>k\<close> posted so far.\<close>

definition requests :: "string \<Rightarrow> webGLMap \<Rightarrow> nat" where
  "requests k m = length (filter (\<lambda>msg. msg_tile msg = k) (posted m))"

text \<open>
  The fallback as the specification words it, for comparison with \<open>getPlaceholderTile\<close>:
  "the nearest ancestor (walking up one level at a time) that is Ready and non-empty", the
  walk ending at zoom 0.
\<close>

function spec_nearestAncestor :: "tileCache \<Rightarrow> tile \<Rightarrow> featureSet list option" where
  "spec_nearestAncestor cache (x, y, z) =
     (if z \<le> 0 then None
      else if lengthPositive (getTile cache (joinTile (getParent (x, y, z))))
           then Some (orEmpty (getTile cache (joinTile (getParent (x, y, z)))))
           else spec_nearestAncestor cache (x div 2, y div 2, z - 1))"
  by pat_completeness auto
termination
  by (relation "measure (\<lambda>(cache, x, y, z). nat z)") auto

declare spec_nearestAncestor.simps [simp del]

text \<open>
  "... else concatenate all Ready, non-empty descendant tiles at the next levels down. If no
  fallback exists, return an empty sequence."
\<close>

definition spec_getOrPlaceholder :: "tileCache \<Rightarrow> tile \<Rightarrow> featureSet list" where
  "spec_getOrPlaceholder cache t =
     (case spec_nearestAncestor cache t of
        Some featureSets \<Rightarrow> featureSets
      | None \<Rightarrow> concat (map (\<lambda>child. orEmpty (getTile cache (joinTile child))) (getChildren t)))"

text \<open>A cache with the given entries, set one after the other.\<close>

definition cacheOf :: "(tile \<times> tileEntry) list \<Rightarrow> tileCache" where
  "cacheOf entries = fold (\<lambda>(t, v) cache. setTile cache (joinTile t) v) entries Map.empty"

text \<open>
  The buffer loop of the second copy of \<open>updateTiles\<close> in the file (the bundled build): every
  tile of the widened rectangle is followed by its four children and by its parent.
\<close>

definition bufferTiles_bundled :: "int \<Rightarrow> int \<Rightarrow> int \<Rightarrow> int \<Rightarrow> int \<Rightarrow> int \<Rightarrow> tile list" where
  "bufferTiles_bundled minX maxX minY maxY z buffer =
     concat (map (\<lambda>bufX.
        concat (map (\<lambda>bufY.
           ((bufX, bufY, z) # getChildren (bufX, bufY, z)) @ [getParent (bufX, bufY, z)])
          [minY - buffer..maxY + buffer]))
       [minX - buffer..maxX + buffer])"

text \<open>
  What the bundled copy assigns to \<open>bufferedTiles\<close>, and its load list before the removal of
  duplicates and the range filter. The tile rectangle and \<open>tilesInView\<close> are computed by the
  same statements as in the source copy.
\<close>

definition bufTiles_bundled :: "(real \<Rightarrow> real \<Rightarrow> int \<Rightarrow> tile) \<Rightarrow> webGLMap \<Rightarrow> tile list" where
  "bufTiles_bundled pointToTile m =
     (case tileRange pointToTile m of (minX, maxX, minY, maxY, z) \<Rightarrow>
        bufferTiles_bundled minX maxX minY maxY z (opt_tileBuffer m))"

definition loadCandidates_bundled ::
  "(real \<Rightarrow> real \<Rightarrow> int \<Rightarrow> tile) \<Rightarrow> webGLMap \<Rightarrow> string list" where
  "loadCandidates_bundled pointToTile m =
     loadCandidates (viewTiles pointToTile m) (bufTiles_bundled pointToTile m)"

section \<open>Round trip of the projection\<close>

lemma mercator_angle_bounds:
  assumes "- 90 < lat" and "lat < 90"
  shows "0 < pi / 4 + lat * pi / 360" and "pi / 4 + lat * pi / 360 < pi / 2"
proof -
  have eq: "pi / 4 + lat * pi / 360 = pi * ((90 + lat) / 360)"
    by (simp add: field_simps)
  have "0 < (90 + lat) / 360"
    using assms by simp
  then have "0 < pi * ((90 + lat) / 360)"
    by simp
  then show "0 < pi / 4 + lat * pi / 360"
    by (simp only: eq)
  have "(90 + lat) / 360 < 1 / 2"
    using assms by simp
  then have "pi * ((90 + lat) / 360) < pi / 2"
    by simp
  then show "pi / 4 + lat * pi / 360 < pi / 2"
    by (simp only: eq)
qed

lemma lng_round_trip: "lngFromMercatorX ((1 + (- 1 + mercatorXfromLng lng * 2)) / 2) = lng"
  unfolding lngFromMercatorX_def mercatorXfromLng_def by argo

lemma mercatorY_scaled:
  "(180 - ((180 - (180 / pi * L)) / 360) * 360) * pi / 180 = (L::real)"
proof -
  have "((180 - (180 / pi * L)) / 360) * 360 = 180 - 180 / pi * L"
    by simp
  then have "180 - ((180 - (180 / pi * L)) / 360) * 360 = 180 / pi * L"
    by linarith
  then show ?thesis by simp
qed

lemma lat_round_trip:
  assumes "- 90 < lat" and "lat < 90"
  shows "latFromMercatorY ((1 - (1 - mercatorYfromLat lat * 2)) / 2) = lat"
proof -
  let ?a = "pi / 4 + lat * pi / 360"
  have pos: "0 < ?a" and less: "?a < pi / 2"
    using mercator_angle_bounds [OF assms] by simp_all
  have tan_pos: "0 < tan ?a"
    using pos less by (rule tan_gt_zero)
  have arg: "(1 - (1 - mercatorYfromLat lat * 2)) / 2 = mercatorYfromLat lat"
    by simp
  have "(180 - mercatorYfromLat lat * 360) * pi / 180 = ln (tan ?a)"
    unfolding mercatorYfromLat_def by (rule mercatorY_scaled)
  then have "exp ((180 - mercatorYfromLat lat * 360) * pi / 180) = tan ?a"
    using tan_pos by simp
  moreover have "- (pi / 2) < ?a"
    using pos pi_gt_zero by linarith
  then have "arctan (tan ?a) = ?a"
    using less by (rule arctan_tan)
  ultimately have "latFromMercatorY (mercatorYfromLat lat) = 360 / pi * ?a - 90"
    by (simp only: latFromMercatorY_def Let_def)
  also have "\<dots> = lat"
    by (simp add: field_simps)
  finally show ?thesis by (simp only: arg)
qed

text \<open>
  The formulas of \<open>fromLngLat\<close> and \<open>fromXY\<close>, read as functions on the real numbers, are
  inverse to each other: for every longitude in (-180, 180) and latitude in (-85.05, 85.05),
  \<open>fromXY\<close> applied to \<open>fromLngLat\<close> gives back the (longitude, latitude) pair exactly. This
  is the real-arithmetic half of claim C6; the rounding of the floating-point operations of
  the implementation is not modelled, and nothing is stated here about its tolerance.
\<close>

theorem fromXY_fromLngLat:
  assumes "- 180 < lng" and "lng < 180" and "- 85.05 < lat" and "lat < 85.05"
  shows "fromXY (fromLngLat (lng, lat)) = (lng, lat)"
proof -
  have "- 90 < lat" and "lat < 90"
    using assms by simp_all
  then have "latFromMercatorY ((1 - (1 - mercatorYfromLat lat * 2)) / 2) = lat"
    by (rule lat_round_trip)
  then show ?thesis
    using lng_round_trip [of lng] by (simp add: fromXY_def fromLngLat_def Let_def)
qed

theorem fromXY_fromLngLat_witness:
  "- 180 < (- 73.9834558 :: real) \<and> (- 73.9834558 :: real) < 180
   \<and> - 85.05 < (40.6932723 :: real) \<and> (40.6932723 :: real) < 85.05
   \<and> fromXY (fromLngLat (- 73.9834558, 40.6932723)) = (- 73.9834558, 40.6932723)"
  using fromXY_fromLngLat [of "- 73.9834558" "40.6932723"] by simp

section \<open>Line expansion\<close>

lemma length_segment: "length (segment coordinates j) = 4"
  by (simp add: segment_def projected_def)

lemma length_segments: "length (concat (map (segment cs) [0..<n])) = 4 * n"
  by (induction n) (simp_all add: length_segment)

lemma nth_segments:
  "i < n \<Longrightarrow> take 4 (drop (4 * i) (concat (map (segment cs) [0..<n]))) = segment cs i"
proof (induction n)
  case 0
  then show ?case by simp
next
  case (Suc n)
  show ?case
  proof (cases "i < n")
    case True
    then have "4 * i + 4 \<le> length (concat (map (segment cs) [0..<n]))"
      by (simp add: length_segments)
    then show ?thesis
      using Suc.IH [OF True] by (simp add: length_segments)
  next
    case False
    then have "i = n" using Suc.prems by simp
    then show ?thesis
      by (simp add: length_segments length_segment)
  qed
qed

lemma verticesFromLine_loop_segments:
  "2 \<le> i \<Longrightarrow> i \<le> length cs \<Longrightarrow> vertices = concat (map (segment cs) [0..<i - 1]) \<Longrightarrow>
   verticesFromLine_loop cs i vertices = concat (map (segment cs) [0..<length cs - 1])"
proof (induction cs i vertices rule: verticesFromLine_loop.induct)
  case (1 coordinates i vertices)
  show ?case
  proof (cases "i < length coordinates")
    case False
    then have "i = length coordinates" using "1.prems" by simp
    then show ?thesis
      using "1.prems" by (simp add: verticesFromLine_loop.simps)
  next
    case True
    obtain k where k: "i = Suc (Suc k)"
      using "1.prems"(1) by (metis Suc_le_D numeral_2_eq_2 Suc_le_mono le_0_eq not0_implies_Suc)
    let ?front = "concat (map (segment coordinates) [0..<k])"
    have vs: "vertices = ?front @ segment coordinates k"
      using "1.prems"(3) k by simp
    have len: "length vertices = 4 * k + 4"
      using vs by (simp add: length_segments length_segment)
    have prevX: "vertices ! (length vertices - 2) = fst (fromLngLat (coordinates ! Suc k))"
      unfolding vs by (simp add: nth_append length_segments segment_def projected_def)
    have prevY: "vertices ! (length vertices - 1) = snd (fromLngLat (coordinates ! Suc k))"
      unfolding vs by (simp add: nth_append length_segments segment_def projected_def)
    have next_vs:
      "(vertices @ [vertices ! (length vertices - 2), vertices ! (length vertices - 1)])
         @ projected (coordinates ! i)
       = concat (map (segment coordinates) [0..<(i + 1) - 1])"
      unfolding prevX prevY using k vs by (simp add: segment_def projected_def)
    have "verticesFromLine_loop coordinates (i + 1)
            ((vertices @ [vertices ! (length vertices - 2), vertices ! (length vertices - 1)])
              @ projected (coordinates ! i))
          = concat (map (segment coordinates) [0..<length coordinates - 1])"
      using True "1.prems"(1) next_vs
      by (intro "1.IH" [OF True refl refl]) simp_all
    then show ?thesis
      using True by (subst verticesFromLine_loop.simps) (simp add: Let_def)
  qed
qed

lemma verticesFromLine_closed_form:
  assumes "2 \<le> length coordinates"
  shows "verticesFromLine coordinates
         = Inr (concat (map (segment coordinates) [0..<length coordinates - 1]))"
proof -
  have "projected (coordinates ! 0) @ projected (coordinates ! 1)
        = concat (map (segment coordinates) [0..<2 - 1])"
    by (simp add: segment_def)
  then have "verticesFromLine_loop coordinates 2
               (projected (coordinates ! 0) @ projected (coordinates ! 1))
             = concat (map (segment coordinates) [0..<length coordinates - 1])"
    using assms by (intro verticesFromLine_loop_segments) simp_all
  then show ?thesis
    using assms by (simp add: verticesFromLine_def)
qed

text \<open>
  Claim C5. For a LineString of \<open>k \<ge> 2\<close> points, \<open>verticesFromLine\<close> (and with it
  \<open>geometryToVertices\<close>) returns, without throwing, exactly \<open>4 * (k - 1)\<close> floats: one independent segment for every pair of consecutive
  points, the floats \<open>4 * i .. 4 * i + 3\<close> being the projection of point \<open>i\<close> followed by the
  projection of point \<open>i + 1\<close>, so that every intermediate point occurs twice. Two points give
  4 floats, three points give 8.
\<close>

theorem verticesFromLine_float_count:
  assumes "2 \<le> length coordinates"
  shows "\<exists>vertices. verticesFromLine coordinates = Inr vertices
           \<and> geometryToVertices ec (LineString coordinates) = Inr (map Some vertices)
           \<and> length vertices = 4 * (length coordinates - 1)
           \<and> (\<forall>i. i + 1 < length coordinates \<longrightarrow>
                 take 4 (drop (4 * i) vertices)
                 = projected (coordinates ! i) @ projected (coordinates ! (i + 1)))"
proof -
  let ?vs = "concat (map (segment coordinates) [0..<length coordinates - 1])"
  have line: "verticesFromLine coordinates = Inr ?vs"
    using assms by (rule verticesFromLine_closed_form)
  moreover have "geometryToVertices ec (LineString coordinates) = Inr (map Some ?vs)"
    by (simp only: geometryToVertices.simps line sum.case)
  moreover have "length ?vs = 4 * (length coordinates - 1)"
    by (rule length_segments)
  moreover have "take 4 (drop (4 * i) ?vs)
                 = projected (coordinates ! i) @ projected (coordinates ! (i + 1))"
    if "i + 1 < length coordinates" for i
  proof -
    from that have "i < length coordinates - 1" by simp
    then show ?thesis
      using nth_segments [of i "length coordinates - 1" coordinates] by (simp add: segment_def)
  qed
  ultimately show ?thesis by blast
qed

theorem verticesFromLine_float_count_witness:
  "2 \<le> length ([(0, 0), (10, 10), (20, 5)] :: lngLat list)
   \<and> (\<exists>vertices. verticesFromLine [(0, 0), (10, 10), (20, 5)] = Inr vertices
          \<and> length vertices = 8
          \<and> take 4 (drop 4 vertices) = projected (10, 10) @ projected (20, 5))"
proof -
  let ?cs = "[(0, 0), (10, 10), (20, 5)] :: lngLat list"
  have two: "2 \<le> length ?cs"
    by simp
  from verticesFromLine_float_count [OF two, of "\<lambda>vertices holes dim. []"]
  obtain vertices where v: "verticesFromLine ?cs = Inr vertices"
      "length vertices = 4 * (length ?cs - 1)"
      "\<forall>i. i + 1 < length ?cs \<longrightarrow>
         take 4 (drop (4 * i) vertices) = projected (?cs ! i) @ projected (?cs ! (i + 1))"
    by blast
  have "(1::nat) + 1 < length ?cs"
    by simp
  with v(3) have "take 4 (drop (4 * 1) vertices) = projected (?cs ! 1) @ projected (?cs ! (1 + 1))"
    by blast
  then have seg: "take 4 (drop 4 vertices) = projected (10, 10) @ projected (20, 5)"
    by simp
  have len: "length vertices = 8"
    using v(2) by simp
  from two v(1) len seg show ?thesis by blast
qed

section \<open>Polygons and multi-polygons\<close>

lemma append_js_eq: "append_js arr1 arr2 = arr1 @ arr2"
  unfolding append_js_def by (induction arr2 arbitrary: arr1) simp_all

lemma earcut_flatten_loop_closed_form:
  "i \<le> length data \<Longrightarrow> holeIndex = sum_list (map length (take (i - 1) data)) \<Longrightarrow>
   earcut_flatten_loop data i holeIndex vertices holes
   = (vertices @ concat (map flatCoords (drop i data)),
      holes @ map (\<lambda>j. sum_list (map length (take j data))) [max 1 i..<length data])"
proof (induction data i holeIndex vertices holes rule: earcut_flatten_loop.induct)
  case (1 data i holeIndex vertices holes)
  let ?pushed = "vertices @ concat (map (\<lambda>p. [fst p, snd p]) (data ! i))"
  let ?start = "\<lambda>j. sum_list (map length (take j data))"
  show ?case
  proof (cases "i < length data")
    case False
    then show ?thesis
      using "1.prems" by (simp add: earcut_flatten_loop.simps)
  next
    case inside: True
    have "drop i data = data ! i # drop (i + 1) data"
      using inside by (simp add: Cons_nth_drop_Suc)
    then have rest: "vertices @ concat (map flatCoords (drop i data))
                     = ?pushed @ concat (map flatCoords (drop (i + 1) data))"
      by (simp add: flatCoords_def)
    show ?thesis
    proof (cases "0 < i")
      case True
      let ?h = "holeIndex + length (data ! (i - 1))"
      obtain k where k: "i = Suc k"
        using True by (cases i) simp_all
      have sum_i: "?h = ?start i"
        using "1.prems"(2) inside k by (simp add: take_Suc_conv_app_nth)
      have range_i: "holes @ map ?start [max 1 i..<length data]
                     = (holes @ [?h]) @ map ?start [max 1 (i + 1)..<length data]"
        using inside k sum_i by (simp add: upt_conv_Cons)
      have step: "earcut_flatten_loop data i holeIndex vertices holes
                  = earcut_flatten_loop data (i + 1) ?h ?pushed (holes @ [?h])"
        using inside True by (subst earcut_flatten_loop.simps) simp
      have "earcut_flatten_loop data (i + 1) ?h ?pushed (holes @ [?h])
            = (?pushed @ concat (map flatCoords (drop (i + 1) data)),
               (holes @ [?h]) @ map ?start [max 1 (i + 1)..<length data])"
        using inside sum_i by (intro "1.IH"(1) [OF inside True]) simp_all
      then show ?thesis
        by (simp only: step rest range_i)
    next
      case False
      have range_i: "[max 1 i..<length data] = [max 1 (i + 1)..<length data]"
        using False by simp
      have step: "earcut_flatten_loop data i holeIndex vertices holes
                  = earcut_flatten_loop data (i + 1) holeIndex ?pushed holes"
        using inside False by (subst earcut_flatten_loop.simps) simp
      have "earcut_flatten_loop data (i + 1) holeIndex ?pushed holes
            = (?pushed @ concat (map flatCoords (drop (i + 1) data)),
               holes @ map ?start [max 1 (i + 1)..<length data])"
        using inside "1.prems"(2) False
        by (intro "1.IH"(2) [OF inside False]) (simp_all add: Suc_le_eq)
      then show ?thesis
        by (simp only: step rest range_i)
    qed
  qed
qed

lemma earcut_flatten_closed_form:
  assumes "outer \<noteq> []"
  shows "earcut_flatten (outer # inner)
         = Inr (concat (map flatCoords (outer # inner)), holeStarts (outer # inner))"
proof -
  have "earcut_flatten_loop (outer # inner) 0 0 [] []
        = ([] @ concat (map flatCoords (drop 0 (outer # inner))),
           [] @ map (\<lambda>j. sum_list (map length (take j (outer # inner))))
                  [max 1 0..<length (outer # inner)])"
    by (rule earcut_flatten_loop_closed_form) simp_all
  then show ?thesis
    using assms by (cases outer) (simp_all add: earcut_flatten_def holeStarts_def)
qed

lemma even_length_flatCoords: "even (length (flatCoords ring))"
  unfolding flatCoords_def by (induction ring) simp_all

lemma even_length_flat_rings: "even (length (concat (map flatCoords data)))"
  by (induction data) (simp_all add: even_length_flatCoords)

lemma earcut_flatten_even:
  "earcut_flatten data = Inr (vertices, holes) \<Longrightarrow> even (length vertices)"
proof (cases data)
  case Nil
  then show "earcut_flatten data = Inr (vertices, holes) \<Longrightarrow> even (length vertices)"
    by (simp add: earcut_flatten_def)
next
  case (Cons outer inner)
  assume result: "earcut_flatten data = Inr (vertices, holes)"
  then have "outer \<noteq> []"
    unfolding Cons by (auto simp: earcut_flatten_def split: list.splits)
  from earcut_flatten_closed_form [OF this, of inner] result
  have "vertices = concat (map flatCoords (outer # inner))"
    unfolding Cons by simp
  then show "even (length vertices)"
    by (simp only: even_length_flat_rings)
qed

lemma verticesFromPolygon_closed_form:
  assumes "outer \<noteq> []"
  shows "verticesFromPolygon ec (outer # inner)
         = Inr (concat (map (projectedAt (concat (map flatCoords (outer # inner))))
                  (ec (concat (map flatCoords (outer # inner))) (holeStarts (outer # inner)) 2)))"
  using earcut_flatten_closed_form [OF assms, of inner]
  by (simp add: verticesFromPolygon_def)

lemma verticesFromPolygon_outer_only:
  assumes "outer \<noteq> []"
  shows "verticesFromPolygon ec [outer]
         = Inr (concat (map (projectedAt (flatCoords outer)) (ec (flatCoords outer) [] 2)))"
  using verticesFromPolygon_closed_form [OF assms, of ec "[]"]
  by (simp add: holeStarts_def)

lemma multiPolygon_member:
  "(case polygon of
      [] \<Rightarrow> Inl TypeError
    | outer # _ \<Rightarrow> verticesFromPolygon ec [outer]) = verticesFromPolygon ec (take 1 polygon)"
  by (cases polygon) (simp_all add: verticesFromPolygon_def earcut_flatten_def)

lemma multiPolygon_forEach_step:
  "multiPolygon_forEach ec (polygon # rest) positions
   = (case verticesFromPolygon ec (take 1 polygon) of
        Inl e \<Rightarrow> Inl e
      | Inr vs \<Rightarrow> multiPolygon_forEach ec rest (positions @ vs))"
proof (cases polygon)
  case Nil
  then show ?thesis
    by (simp add: verticesFromPolygon_def earcut_flatten_def)
next
  case (Cons outer inner)
  then show ?thesis
    by (simp add: append_js_eq split: sum.splits)
qed

lemma multiPolygon_forEach_outer_rings:
  "map (take 1) ps = map (take 1) qs \<Longrightarrow>
   multiPolygon_forEach ec ps positions = multiPolygon_forEach ec qs positions"
proof (induction ps arbitrary: qs positions)
  case Nil
  then show ?case by simp
next
  case (Cons p ps)
  then obtain q qs' where qs: "qs = q # qs'" and hd_eq: "take 1 p = take 1 q"
    and tl_eq: "map (take 1) ps = map (take 1) qs'"
    by (cases qs) auto
  show ?case
    unfolding qs multiPolygon_forEach_step hd_eq
    using Cons.IH [OF tl_eq] by (simp split: sum.splits)
qed

lemma multiPolygon_forEach_concat:
  "list_all2 (\<lambda>p vs. verticesFromPolygon ec (take 1 p) = Inr vs) ps vss \<Longrightarrow>
   multiPolygon_forEach ec ps positions = Inr (positions @ concat vss)"
proof (induction ps arbitrary: vss positions)
  case Nil
  then show ?case by simp
next
  case (Cons p ps)
  then obtain vs vss' where vss: "vss = vs # vss'"
    and first: "verticesFromPolygon ec (take 1 p) = Inr vs"
    and others: "list_all2 (\<lambda>p vs. verticesFromPolygon ec (take 1 p) = Inr vs) ps vss'"
    by (cases vss) auto
  show ?case
    unfolding vss multiPolygon_forEach_step first
    using Cons.IH [OF others] by simp
qed

lemma geometryToVertices_MultiPolygon_outer_rings:
  "map (take 1) ps = map (take 1) qs \<Longrightarrow>
   geometryToVertices ec (MultiPolygon ps) = geometryToVertices ec (MultiPolygon qs)"
  using multiPolygon_forEach_outer_rings [of ps qs ec "[]"]
  by (simp only: geometryToVertices.simps)

lemma geometryToVertices_MultiPolygon_concat:
  "list_all2 (\<lambda>p vs. verticesFromPolygon ec (take 1 p) = Inr vs) ps vss \<Longrightarrow>
   geometryToVertices ec (MultiPolygon ps) = Inr (concat vss)"
  using multiPolygon_forEach_concat [of ec ps vss "[]"]
  by (simp only: geometryToVertices.simps append_Nil)

lemma verticesFromPolygon_member:
  assumes "outer \<noteq> []"
  shows "verticesFromPolygon ec (take 1 (outer # inner))
         = Inr (concat (map (projectedAt (flatCoords outer)) (ec (flatCoords outer) [] 2)))"
proof -
  have "verticesFromPolygon ec [outer]
        = Inr (concat (map (projectedAt (flatCoords outer)) (ec (flatCoords outer) [] 2)))"
    using assms by (rule verticesFromPolygon_outer_only)
  then show ?thesis by simp
qed

lemma geometryToVertices_Polygon_all_rings:
  "outer \<noteq> [] \<Longrightarrow>
   geometryToVertices ec (Polygon (outer # inner))
   = Inr (concat (map (projectedAt (concat (map flatCoords (outer # inner))))
            (ec (concat (map flatCoords (outer # inner))) (holeStarts (outer # inner)) 2)))"
  by (simp only: geometryToVertices.simps) (rule verticesFromPolygon_closed_form)

lemma length_holeStarts: "length (holeStarts (outer # inner)) = length inner"
  by (simp add: holeStarts_def del: upt_Suc)

text \<open>
  Claim C7. For a MultiPolygon, \<open>geometryToVertices\<close> triangulates only the first (outer) ring
  of each member polygon and concatenates the results: the output does not change when the
  inner rings of the members change, it is the concatenation of the outputs of
  \<open>verticesFromPolygon\<close> on the one-ring lists, and the triangulation of a member receives
  the coordinates of its outer ring with an empty list of holes. For a single Polygon, the
  triangulation receives the coordinates of all rings together with one hole start index
  for every inner ring.
\<close>

theorem multiPolygon_outer_rings_only:
  "(map (take 1) ps = map (take 1) qs \<longrightarrow>
      geometryToVertices ec (MultiPolygon ps) = geometryToVertices ec (MultiPolygon qs))
   \<and> (list_all2 (\<lambda>p vs. verticesFromPolygon ec (take 1 p) = Inr vs) ps vss \<longrightarrow>
      geometryToVertices ec (MultiPolygon ps) = Inr (concat vss))
   \<and> (outer \<noteq> [] \<longrightarrow>
      verticesFromPolygon ec (take 1 (outer # inner))
        = Inr (concat (map (projectedAt (flatCoords outer)) (ec (flatCoords outer) [] 2)))
      \<and> geometryToVertices ec (Polygon (outer # inner))
        = Inr (concat (map (projectedAt (concat (map flatCoords (outer # inner))))
                 (ec (concat (map flatCoords (outer # inner))) (holeStarts (outer # inner)) 2)))
      \<and> length (holeStarts (outer # inner)) = length inner)"
proof (intro conjI impI)
  assume "map (take 1) ps = map (take 1) qs"
  then show "geometryToVertices ec (MultiPolygon ps) = geometryToVertices ec (MultiPolygon qs)"
    by (rule geometryToVertices_MultiPolygon_outer_rings)
next
  assume "list_all2 (\<lambda>p vs. verticesFromPolygon ec (take 1 p) = Inr vs) ps vss"
  then show "geometryToVertices ec (MultiPolygon ps) = Inr (concat vss)"
    by (rule geometryToVertices_MultiPolygon_concat)
next
  assume "outer \<noteq> []"
  then show "verticesFromPolygon ec (take 1 (outer # inner))
        = Inr (concat (map (projectedAt (flatCoords outer)) (ec (flatCoords outer) [] 2)))"
    by (rule verticesFromPolygon_member)
next
  assume "outer \<noteq> []"
  then show "geometryToVertices ec (Polygon (outer # inner))
        = Inr (concat (map (projectedAt (concat (map flatCoords (outer # inner))))
                 (ec (concat (map flatCoords (outer # inner))) (holeStarts (outer # inner)) 2)))"
    by (rule geometryToVertices_Polygon_all_rings)
next
  show "length (holeStarts (outer # inner)) = length inner"
    by (rule length_holeStarts)
qed

theorem multiPolygon_outer_rings_only_witness:
  "map (take 1) [[[(0, 0), (4, 0), (4, 4), (0, 4)], [(1, 1), (2, 1), (1, 2)]]]
     = map (take 1) [[([(0, 0), (4, 0), (4, 4), (0, 4)] :: lngLat list)]]
   \<and> geometryToVertices (\<lambda>vertices holes dim. [0, 1, 2])
         (MultiPolygon [[[(0, 0), (4, 0), (4, 4), (0, 4)], [(1, 1), (2, 1), (1, 2)]]])
       = geometryToVertices (\<lambda>vertices holes dim. [0, 1, 2])
           (MultiPolygon [[[(0, 0), (4, 0), (4, 4), (0, 4)]]])
   \<and> ([(0, 0), (4, 0), (4, 4), (0, 4)] :: lngLat list) \<noteq> []
   \<and> geometryToVertices (\<lambda>vertices holes dim. [0, 1, 2])
         (MultiPolygon [[[(0, 0), (4, 0), (4, 4), (0, 4)], [(1, 1), (2, 1), (1, 2)]]])
       = Inr (concat [concat (map (projectedAt [0, 0, 4, 0, 4, 4, 0, 4]) [0, 1, 2])])
   \<and> length (holeStarts [[(0, 0), (4, 0), (4, 4), (0, 4)], [(1, 1), (2, 1), (1, 2)]])
       = length [([(1, 1), (2, 1), (1, 2)] :: lngLat list)]"
proof -
  let ?sq = "[(0, 0), (4, 0), (4, 4), (0, 4)] :: lngLat list"
  let ?hole = "[(1, 1), (2, 1), (1, 2)] :: lngLat list"
  let ?ec = "(\<lambda>vertices holes dim. [0, 1, 2]) :: earcut"
  let ?vs = "concat (map (projectedAt [0, 0, 4, 0, 4, 4, 0, 4]) [0, 1, 2])"
  note inst = multiPolygon_outer_rings_only
    [of "[[?sq, ?hole]]" "[[?sq]]" ?ec "[?vs]" ?sq "[?hole]"]
  have same: "map (take 1) [[?sq, ?hole]] = map (take 1) [[?sq]]"
    by simp
  have nonempty: "?sq \<noteq> []"
    by simp
  have flat: "flatCoords ?sq = [0, 0, 4, 0, 4, 4, 0, 4]"
    by (simp add: flatCoords_def)
  have "verticesFromPolygon ?ec (take 1 (?sq # [?hole]))
        = Inr (concat (map (projectedAt (flatCoords ?sq)) (?ec (flatCoords ?sq) [] 2)))"
    by (rule inst [THEN conjunct2, THEN conjunct2, THEN mp, OF nonempty, THEN conjunct1])
  then have member: "verticesFromPolygon ?ec (take 1 [?sq, ?hole]) = Inr ?vs"
    by (simp only: flat)
  have each: "list_all2 (\<lambda>p vs. verticesFromPolygon ?ec (take 1 p) = Inr vs) [[?sq, ?hole]] [?vs]"
    using member by (simp only: list_all2_Cons list_all2_Nil simp_thms)
  have c1: "geometryToVertices ?ec (MultiPolygon [[?sq, ?hole]])
            = geometryToVertices ?ec (MultiPolygon [[?sq]])"
    by (rule inst [THEN conjunct1, THEN mp, OF same])
  have c2: "geometryToVertices ?ec (MultiPolygon [[?sq, ?hole]]) = Inr (concat [?vs])"
    by (rule inst [THEN conjunct2, THEN conjunct1, THEN mp, OF each])
  have c3: "length (holeStarts [?sq, ?hole]) = length [?hole]"
    by (rule inst [THEN conjunct2, THEN conjunct2, THEN mp, OF nonempty, THEN conjunct2, THEN conjunct2])
  from same c1 nonempty c2 c3 show ?thesis
    by (intro conjI)
qed

section \<open>The trio of feature sets per layer\<close>

lemma fetchTile_layers_keys:
  "fetchTile_layers ec tile layers tileData = Inr result \<Longrightarrow>
   map entryKey result
   = map entryKey tileData @ concat (map layerTrio (filter (\<lambda>l. tile l \<noteq> None) layers))"
proof (induction layers arbitrary: tileData)
  case Nil
  then show ?case by simp
next
  case (Cons layer rest)
  show ?case
  proof (cases "tile layer")
    case None
    then show ?thesis
      using Cons by simp
  next
    case (Some features)
    with Cons.prems obtain polygons points lines
      where "fetchTile_layers ec tile rest
               (tileData @
                 [\<lparr>fs_layer = layer, fs_type = PrimPolygon, fs_vertices = polygons\<rparr>,
                  \<lparr>fs_layer = layer, fs_type = PrimPoint, fs_vertices = points\<rparr>,
                  \<lparr>fs_layer = layer, fs_type = PrimLine, fs_vertices = lines\<rparr>]) = Inr result"
      by (auto split: sum.splits)
    from Cons.IH [OF this] show ?thesis
      using Some by (simp add: layerTrio_def entryKey_def)
  qed
qed

lemma filter_layerTrio:
  "filter (\<lambda>k. fst k = l) (concat (map layerTrio ls))
   = concat (map layerTrio (filter (\<lambda>l'. l' = l) ls))"
  by (induction ls) (auto simp: layerTrio_def)

lemma filter_eq_distinct:
  "distinct ls \<Longrightarrow> filter (\<lambda>l'. l' = l) ls = (if l \<in> set ls then [l] else [])"
  by (induction ls) auto

lemma fetchTile_features_returns:
  "list_all (\<lambda>g. \<not> isl (geometryToVertices ec g)) features \<Longrightarrow>
   \<exists>result. fetchTile_features ec features (polygons, points, lines) = Inr result"
proof (induction features arbitrary: polygons points lines)
  case Nil
  then show ?case by simp
next
  case (Cons g rest)
  from Cons.prems obtain vs where vs: "geometryToVertices ec g = Inr vs"
    by (cases "geometryToVertices ec g") simp_all
  from Cons.prems have "list_all (\<lambda>g. \<not> isl (geometryToVertices ec g)) rest"
    by simp
  then have "\<exists>result. fetchTile_features ec rest (a, b, c) = Inr result" for a b c
    by (rule Cons.IH)
  then show ?case
    by (cases "getLayerPrimitive g") (simp_all add: vs)
qed

lemma fetchTile_layers_returns:
  "decodes ec tile layers \<Longrightarrow> \<exists>result. fetchTile_layers ec tile layers tileData = Inr result"
proof (induction layers arbitrary: tileData)
  case Nil
  then show ?case by simp
next
  case (Cons layer rest)
  from Cons.prems have rest: "decodes ec tile rest"
    by (simp add: decodes_def)
  show ?case
  proof (cases "tile layer")
    case None
    then show ?thesis
      using Cons.IH [OF rest] by simp
  next
    case (Some features)
    with Cons.prems have "list_all (\<lambda>g. \<not> isl (geometryToVertices ec g)) features"
      by (simp add: decodes_def)
    then obtain buckets where "fetchTile_features ec features ([], [], []) = Inr buckets"
      using fetchTile_features_returns by blast
    then show ?thesis
      using Some Cons.IH [OF rest] by (simp split: prod.splits)
  qed
qed

lemma trio_types_of_layer:
  assumes keys: "map entryKey tileData = concat (map layerTrio (filter present layers))"
    and "distinct layers"
  shows "map fs_type (filter (\<lambda>fs. fs_layer fs = l) tileData)
         = (if l \<in> set layers \<and> present l then [PrimPolygon, PrimPoint, PrimLine] else [])"
proof -
  have "map fs_type (filter (\<lambda>fs. fs_layer fs = l) tileData)
        = map snd (filter (\<lambda>k. fst k = l) (map entryKey tileData))"
    by (simp add: filter_map o_def entryKey_def)
  also have "\<dots> = map snd (concat (map layerTrio (filter (\<lambda>l'. l' = l) (filter present layers))))"
    by (simp only: keys filter_layerTrio)
  also have "filter (\<lambda>l'. l' = l) (filter present layers)
             = (if l \<in> set (filter present layers) then [l] else [])"
    using assms(2) by (intro filter_eq_distinct) simp
  finally show ?thesis
    by (simp add: layerTrio_def)
qed

text \<open>
  Claim C4. When the tile is fetched and decoded and no feature throws, \<open>fetchTile\<close> returns;
  its result lists, for the requested layers that are present in the tile and in the order
  of the request, exactly the three entries polygon, point, line of each such layer, and
  nothing else: a requested layer that is absent from the tile has no entry. The three
  entries are there whatever the buckets hold, also for a layer without features.
\<close>

theorem fetchTile_layer_trios:
  "(decodes ec tile layers \<longrightarrow> (\<exists>result. fetchTile ec layers (Inr tile) = Inr result))
   \<and> (fetchTile ec layers (Inr tile) = Inr tileData \<longrightarrow>
        map entryKey tileData = concat (map layerTrio (filter (\<lambda>l. tile l \<noteq> None) layers))
        \<and> (distinct layers \<longrightarrow>
             (\<forall>l. map fs_type (filter (\<lambda>fs. fs_layer fs = l) tileData)
                  = (if l \<in> set layers \<and> tile l \<noteq> None
                     then [PrimPolygon, PrimPoint, PrimLine] else []))))"
proof (intro conjI impI allI)
  assume "decodes ec tile layers"
  then show "\<exists>result. fetchTile ec layers (Inr tile) = Inr result"
    by (simp add: fetchTile_def fetchTile_layers_returns)
next
  assume "fetchTile ec layers (Inr tile) = Inr tileData"
  then show "map entryKey tileData = concat (map layerTrio (filter (\<lambda>l. tile l \<noteq> None) layers))"
    using fetchTile_layers_keys [of ec tile layers "[]" tileData] by (simp add: fetchTile_def)
next
  fix l
  assume "fetchTile ec layers (Inr tile) = Inr tileData" and "distinct layers"
  then show "map fs_type (filter (\<lambda>fs. fs_layer fs = l) tileData)
             = (if l \<in> set layers \<and> tile l \<noteq> None
                then [PrimPolygon, PrimPoint, PrimLine] else [])"
    using fetchTile_layers_keys [of ec tile layers "[]" tileData]
    by (intro trio_types_of_layer) (simp_all add: fetchTile_def)
qed

theorem fetchTile_layer_trios_witness:
  "decodes (\<lambda>vertices holes dim. [])
     (\<lambda>l. if l = ''water'' then Some []
           else if l = ''building'' then Some [Point (0, 0), Unsupported ''MultiPoint''] else None)
     [''water'', ''park'', ''building'']
   \<and> fetchTile (\<lambda>vertices holes dim. []) [''water'', ''park'', ''building'']
         (Inr (\<lambda>l. if l = ''water'' then Some []
                     else if l = ''building'' then Some [Point (0, 0), Unsupported ''MultiPoint'']
                     else None))
       = Inr [\<lparr>fs_layer = ''water'', fs_type = PrimPolygon, fs_vertices = []\<rparr>,
              \<lparr>fs_layer = ''water'', fs_type = PrimPoint, fs_vertices = []\<rparr>,
              \<lparr>fs_layer = ''water'', fs_type = PrimLine, fs_vertices = []\<rparr>,
              \<lparr>fs_layer = ''building'', fs_type = PrimPolygon, fs_vertices = []\<rparr>,
              \<lparr>fs_layer = ''building'', fs_type = PrimPoint,
                 fs_vertices = map Some (projected (0, 0))\<rparr>,
              \<lparr>fs_layer = ''building'', fs_type = PrimLine, fs_vertices = []\<rparr>]
   \<and> distinct [''water'', ''park'', ''building'']
   \<and> map entryKey
         [\<lparr>fs_layer = ''water'', fs_type = PrimPolygon, fs_vertices = []\<rparr>,
          \<lparr>fs_layer = ''water'', fs_type = PrimPoint, fs_vertices = []\<rparr>,
          \<lparr>fs_layer = ''water'', fs_type = PrimLine, fs_vertices = []\<rparr>,
          \<lparr>fs_layer = ''building'', fs_type = PrimPolygon, fs_vertices = []\<rparr>,
          \<lparr>fs_layer = ''building'', fs_type = PrimPoint,
             fs_vertices = map Some (projected (0, 0))\<rparr>,
          \<lparr>fs_layer = ''building'', fs_type = PrimLine, fs_vertices = []\<rparr>]
       = concat (map layerTrio [''water'', ''building''])"
proof -
  let ?ec = "(\<lambda>vertices holes dim. []) :: earcut"
  let ?tile = "(\<lambda>l. if l = ''water'' then Some []
           else if l = ''building'' then Some [Point (0, 0), Unsupported ''MultiPoint''] else None)
           :: vectorTile"
  let ?layers = "[''water'', ''park'', ''building'']"
  let ?td = "[\<lparr>fs_layer = ''water'', fs_type = PrimPolygon, fs_vertices = []\<rparr>,
              \<lparr>fs_layer = ''water'', fs_type = PrimPoint, fs_vertices = []\<rparr>,
              \<lparr>fs_layer = ''water'', fs_type = PrimLine, fs_vertices = []\<rparr>,
              \<lparr>fs_layer = ''building'', fs_type = PrimPolygon, fs_vertices = []\<rparr>,
              \<lparr>fs_layer = ''building'', fs_type = PrimPoint,
                 fs_vertices = map Some (projected (0, 0))\<rparr>,
              \<lparr>fs_layer = ''building'', fs_type = PrimLine, fs_vertices = []\<rparr>]"
  note inst = fetchTile_layer_trios [of ?ec ?tile ?layers ?td]
  have dec: "decodes ?ec ?tile ?layers"
    by (simp add: decodes_def)
  have run: "fetchTile ?ec ?layers (Inr ?tile) = Inr ?td"
    by (simp add: fetchTile_def)
  have dist: "distinct ?layers"
    by simp
  have present: "filter (\<lambda>l. ?tile l \<noteq> None) ?layers = [''water'', ''building'']"
    by simp
  have "map entryKey ?td = concat (map layerTrio (filter (\<lambda>l. ?tile l \<noteq> None) ?layers))"
    by (rule inst [THEN conjunct2, THEN mp, OF run, THEN conjunct1])
  then have keys: "map entryKey ?td = concat (map layerTrio [''water'', ''building''])"
    by (simp only: present)
  from dec run dist keys show ?thesis
    by (intro conjI)
qed

section \<open>Joining and splitting tile keys\<close>

lemma of_char_digitChar: "d < 10 \<Longrightarrow> of_char (digitChar d) = (48 + d :: nat)"
proof -
  assume "d < 10"
  then have "d \<in> {0, 1, 2, 3, 4, 5, 6, 7, 8, 9}" by auto
  then show ?thesis
    unfolding digitChar_def by (elim insertE emptyE) simp_all
qed

lemma isDigit_digitChar: "d < 10 \<Longrightarrow> isDigit (digitChar d)"
  by (simp add: isDigit_def of_char_digitChar)

lemma showNat_digits: "list_all isDigit (showNat n)"
proof (induction n rule: showNat.induct)
  case (1 n)
  show ?case
  proof (cases "n < 10")
    case True
    then show ?thesis
      by (subst showNat.simps) (simp add: isDigit_digitChar)
  next
    case False
    then show ?thesis
      using "1.IH" by (subst showNat.simps) (simp add: isDigit_digitChar)
  qed
qed

lemma showNat_nonempty: "showNat n \<noteq> []"
  by (subst showNat.simps) simp

lemma digitsVal_snoc: "digitsVal (s @ [c]) = 10 * digitsVal s + (of_char c - 48)"
  by (simp add: digitsVal_def)

lemma digitsVal_showNat: "digitsVal (showNat n) = n"
proof (induction n rule: showNat.induct)
  case (1 n)
  show ?case
  proof (cases "n < 10")
    case True
    then have "digitsVal [digitChar n] = n"
      by (simp add: digitsVal_def of_char_digitChar)
    then show ?thesis
      using True by (subst showNat.simps) simp
  next
    case False
    then have "digitsVal (showNat (n div 10) @ [digitChar (n mod 10)]) = 10 * (n div 10) + n mod 10"
      using "1.IH" by (simp add: digitsVal_snoc of_char_digitChar)
    then show ?thesis
      using False by (subst showNat.simps) simp
  qed
qed

lemma isDigit_not_minus: "isDigit c \<Longrightarrow> c \<noteq> CHR ''-''"
  by (auto simp: isDigit_def)

lemma isDigit_not_slash: "isDigit c \<Longrightarrow> c \<noteq> CHR ''/''"
  by (auto simp: isDigit_def)

lemma js_Number_showInt: "js_Number (showInt i) = Some i"
proof (cases "i < 0")
  case True
  then show ?thesis
    by (simp add: js_Number_def showInt_def showNat_nonempty showNat_digits digitsVal_showNat)
next
  case False
  obtain c cs where s: "showNat (nat i) = c # cs"
    using showNat_nonempty [of "nat i"] by (cases "showNat (nat i)") simp_all
  have digits: "list_all isDigit (c # cs)"
    using showNat_digits [of "nat i"] by (simp only: s)
  then have "c \<noteq> CHR ''-''"
    using isDigit_not_minus by simp
  moreover have "digitsVal (c # cs) = nat i"
    using digitsVal_showNat [of "nat i"] by (simp only: s)
  ultimately show ?thesis
    using False digits by (simp add: js_Number_def showInt_def s)
qed

lemma showInt_no_slash: "CHR ''/'' \<notin> set (showInt i)"
proof -
  have "CHR ''/'' \<notin> set (showNat n)" for n
    using showNat_digits [of n] isDigit_not_slash by (auto simp: list_all_iff)
  then show ?thesis
    by (simp add: showInt_def)
qed

lemma splitSlash_nonempty: "splitSlash s \<noteq> []"
  by (induction s) (auto split: list.splits)

lemma splitSlash_no_slash: "CHR ''/'' \<notin> set s \<Longrightarrow> splitSlash s = [s]"
  by (induction s) (auto split: list.splits)

lemma splitSlash_append:
  "CHR ''/'' \<notin> set a \<Longrightarrow> splitSlash (a @ CHR ''/'' # b) = a # splitSlash b"
  by (induction a) (auto split: list.splits)

lemma splitSlash_joinTile: "splitSlash (joinTile (x, y, z)) = [showInt x, showInt y, showInt z]"
  by (simp add: joinTile_def splitSlash_append splitSlash_no_slash showInt_no_slash)

lemma splitTile_joinTile: "splitTile (joinTile (x, y, z)) = (Some x, Some y, Some z)"
  by (simp add: splitTile_def splitSlash_joinTile js_Number_showInt)

lemma joinTile_inject: "joinTile s = joinTile t \<Longrightarrow> s = t"
proof -
  assume eq: "joinTile s = joinTile t"
  obtain x y z where s: "s = (x, y, z)" using prod_cases3 by blast
  obtain x' y' z' where t: "t = (x', y', z')" using prod_cases3 by blast
  have "splitTile (joinTile (x, y, z)) = splitTile (joinTile (x', y', z'))"
    using eq s t by simp
  then show ?thesis
    unfolding s t splitTile_joinTile by simp
qed

lemma js_pow2_powr: "js_pow2 z = 2 powr real_of_int z"
  by (simp add: js_pow2_def powr_realpow [symmetric] powr_minus divide_inverse)

lemma inRange_joinTile: "inRange (joinTile t) = validTile t"
proof -
  obtain x y z where t: "t = (x, y, z)" using prod_cases3 by blast
  have "real_of_int v < 2 ^ nat z \<longleftrightarrow> v < 2 ^ nat z" for v :: int
    by (metis of_int_less_iff of_int_numeral of_int_power)
  then show ?thesis
    unfolding t by (auto simp: inRange_def splitTile_joinTile validTile_def js_pow2_def Let_def)
qed

lemma set_newSet_aux:
  "set (fold (\<lambda>x seen. if x \<in> set seen then seen else seen @ [x]) xs acc) = set acc \<union> set xs"
  by (induction xs arbitrary: acc) auto

lemma distinct_newSet_aux:
  "distinct acc \<Longrightarrow> distinct (fold (\<lambda>x seen. if x \<in> set seen then seen else seen @ [x]) xs acc)"
  by (induction xs arbitrary: acc) auto

lemma set_newSet: "set (newSet xs) = set xs"
  by (simp add: newSet_def set_newSet_aux)

lemma distinct_newSet: "distinct (newSet xs)"
  by (simp add: newSet_def distinct_newSet_aux)

lemma set_tilesToLoad:
  "set (tilesToLoad inView buffered)
   = {k \<in> set (loadCandidates inView buffered). inRange k}"
  by (auto simp: tilesToLoad_def set_newSet)

lemma distinct_tilesToLoad: "distinct (tilesToLoad inView buffered)"
  by (simp add: tilesToLoad_def distinct_newSet)

subsection \<open>The dispatch loop\<close>

lemma loadTiles_frame:
  "tilesInView (loadTiles ls url ks m) = tilesInView m"
  "bufferedTiles (loadTiles ls url ks m) = bufferedTiles m"
  "camera (loadTiles ls url ks m) = camera m"
  "opt_layers (loadTiles ls url ks m) = opt_layers m"
  "opt_tileServerURL (loadTiles ls url ks m) = opt_tileServerURL m"
  "opt_tileBuffer (loadTiles ls url ks m) = opt_tileBuffer m"
  by (induction ks arbitrary: m) simp_all

lemma posted_loadTiles:
  "posted (loadTiles ls url ks m)
   = posted m @ map (\<lambda>key. \<lparr>msg_tile = key, msg_layers = ls, msg_url = url\<rparr>)
                 (requested (tiles m) ks)"
  by (induction ks arbitrary: m) simp_all

lemma getTile_setTile:
  "getTile (setTile cache key v) k = (if k = key then v else getTile cache k)"
  by (simp add: getTile_def setTile_def)

lemma requested_held: "truthy (getTile cache k) \<Longrightarrow> k \<notin> set (requested cache ks)"
proof (induction ks arbitrary: cache)
  case Nil
  then show ?case by simp
next
  case (Cons key rest)
  show ?case
  proof (cases "truthy (getTile cache key)")
    case True
    then show ?thesis using Cons by simp
  next
    case False
    then have "k \<noteq> key" using Cons.prems by auto
    then have "truthy (getTile (setTile cache key (Data [])) k)"
      using Cons.prems by (simp add: getTile_setTile)
    then have "k \<notin> set (requested (setTile cache key (Data [])) rest)"
      by (rule Cons.IH)
    then show ?thesis
      using False \<open>k \<noteq> key\<close> by simp
  qed
qed

lemma tiles_loadTiles:
  "getTile (tiles (loadTiles ls url ks m)) k
   = (if k \<in> set (requested (tiles m) ks) then Data [] else getTile (tiles m) k)"
proof (induction ks arbitrary: m)
  case Nil
  then show ?case by simp
next
  case (Cons key rest)
  show ?case
  proof (cases "truthy (getTile (tiles m) key)")
    case True
    then show ?thesis using Cons.IH by simp
  next
    case False
    let ?m = "m\<lparr>tiles := setTile (tiles m) key (Data []),
                posted := posted m @ [\<lparr>msg_tile = key, msg_layers = ls, msg_url = url\<rparr>]\<rparr>"
    have step: "loadTiles ls url (key # rest) m = loadTiles ls url rest ?m"
      using False by simp
    have req: "requested (tiles m) (key # rest) = key # requested (setTile (tiles m) key (Data [])) rest"
      using False by simp
    have "truthy (getTile (setTile (tiles m) key (Data [])) key)"
      by (simp add: getTile_setTile)
    then have fresh: "key \<notin> set (requested (setTile (tiles m) key (Data [])) rest)"
      by (rule requested_held)
    have IH: "getTile (tiles (loadTiles ls url rest ?m)) k
              = (if k \<in> set (requested (setTile (tiles m) key (Data [])) rest) then Data []
                 else getTile (setTile (tiles m) key (Data [])) k)"
      using Cons.IH [of ?m] by simp
    show ?thesis
    proof (cases "k = key")
      case True
      then show ?thesis
        unfolding step req IH using fresh by (simp add: getTile_setTile)
    next
      case False
      then show ?thesis
        unfolding step req IH by (simp add: getTile_setTile)
    qed
  qed
qed

lemma distinct_requested: "distinct (requested cache ks)"
proof (induction ks arbitrary: cache)
  case Nil
  then show ?case by simp
next
  case (Cons key rest)
  have "key \<notin> set (requested (setTile cache key (Data [])) rest)"
    by (rule requested_held) (simp add: getTile_setTile)
  then show ?case
    using Cons.IH by simp
qed

lemma set_requested: "set (requested cache ks) = {k \<in> set ks. \<not> truthy (getTile cache k)}"
proof (induction ks arbitrary: cache)
  case Nil
  then show ?case by simp
next
  case (Cons key rest)
  show ?case
  proof (cases "truthy (getTile cache key)")
    case True
    then show ?thesis using Cons.IH by auto
  next
    case False
    have "set (requested (setTile cache key (Data [])) rest)
          = {k \<in> set rest. \<not> truthy (getTile (setTile cache key (Data [])) k)}"
      by (rule Cons.IH)
    also have "\<dots> = {k \<in> set rest. k \<noteq> key \<and> \<not> truthy (getTile cache k)}"
      by (auto simp: getTile_setTile)
    finally show ?thesis
      using False by auto
  qed
qed

subsection \<open>One pass of updateTiles\<close>

lemma updateTiles_loadTiles:
  "updateTiles ptt m
   = loadTiles (opt_layers m) (opt_tileServerURL m) (passLoadList ptt m)
       (m\<lparr>tilesInView := viewTiles ptt m, bufferedTiles := bufTiles ptt m\<rparr>)"
  by (simp add: updateTiles_def passLoadList_def viewTiles_def bufTiles_def Let_def
      split: prod.splits)

lemma tilesInView_updateTiles: "tilesInView (updateTiles ptt m) = viewTiles ptt m"
  by (simp add: updateTiles_loadTiles loadTiles_frame)

lemma bufferedTiles_updateTiles: "bufferedTiles (updateTiles ptt m) = bufTiles ptt m"
  by (simp add: updateTiles_loadTiles loadTiles_frame)

lemma posted_updateTiles:
  "posted (updateTiles ptt m)
   = posted m @ map (\<lambda>key. \<lparr>msg_tile = key, msg_layers = opt_layers m,
                              msg_url = opt_tileServerURL m\<rparr>)
                 (requested (tiles m) (passLoadList ptt m))"
  by (simp add: updateTiles_loadTiles posted_loadTiles)

lemma dispatched_eq:
  "dispatched ptt m
   = map (\<lambda>key. \<lparr>msg_tile = key, msg_layers = opt_layers m, msg_url = opt_tileServerURL m\<rparr>)
       (requested (tiles m) (passLoadList ptt m))"
  by (simp add: dispatched_def posted_updateTiles)

lemma tiles_updateTiles:
  "getTile (tiles (updateTiles ptt m)) k
   = (if k \<in> set (requested (tiles m) (passLoadList ptt m)) then Data []
      else getTile (tiles m) k)"
  by (simp add: updateTiles_loadTiles tiles_loadTiles)

lemma set_passLoadList:
  "set (passLoadList ptt m)
   = {k \<in> set (loadCandidates (viewTiles ptt m) (bufTiles ptt m)). inRange k}"
  by (simp add: passLoadList_def set_tilesToLoad)

lemma loadCandidates_tiles:
  "set (loadCandidates inView buffered) = joinTile ` (set inView \<union> set buffered)"
  by (auto simp: loadCandidates_def)


lemma tileRange_const:
  "tileRange (\<lambda>lng lat z. (a, b, z)) m = (max a 0, a, max b 0, b, tileZoom m)"
  by (simp add: tileRange_def Let_def split: prod.splits)

lemma inViewTiles_z: "t \<in> set (inViewTiles minX maxX minY maxY z) \<Longrightarrow> snd (snd t) = z"
  by (auto simp: inViewTiles_def)

lemma mem_bufferTiles:
  assumes "minX - b \<le> bufX" "bufX \<le> maxX + b" "minY - b \<le> bufY" "bufY \<le> maxY + b"
  shows "(bufX, bufY, z) \<in> set (bufferTiles minX maxX minY maxY z b)"
    and "getParent (bufX, bufY, z) \<in> set (bufferTiles minX maxX minY maxY z b)"
    and "getParent (getParent (bufX, bufY, z)) \<in> set (bufferTiles minX maxX minY maxY z b)"
proof -
  let ?trio = "\<lambda>bufX bufY. [(bufX, bufY, z), getParent (bufX, bufY, z),
                              getParent (getParent (bufX, bufY, z))]"
  have x: "bufX \<in> set [minX - b..maxX + b]" and y: "bufY \<in> set [minY - b..maxY + b]"
    using assms by simp_all
  have "set (?trio bufX bufY) \<subseteq> set (concat (map (?trio bufX) [minY - b..maxY + b]))"
    using y by auto
  also have "\<dots> \<subseteq> set (bufferTiles minX maxX minY maxY z b)"
    unfolding bufferTiles_def using x by auto
  finally have "set (?trio bufX bufY) \<subseteq> set (bufferTiles minX maxX minY maxY z b)" .
  then show "(bufX, bufY, z) \<in> set (bufferTiles minX maxX minY maxY z b)"
    and "getParent (bufX, bufY, z) \<in> set (bufferTiles minX maxX minY maxY z b)"
    and "getParent (getParent (bufX, bufY, z)) \<in> set (bufferTiles minX maxX minY maxY z b)"
    by simp_all
qed

lemma div_2_twice: "(x::int) div 2 div 2 = x div 4"
  by presburger

lemma getParent_twice: "getParent (getParent (x, y, z)) = (x div 4, y div 4, z - 2)"
  by (simp add: getParent_def div_2_twice)

lemma tileZoom_exampleMap: "tileZoom exampleMap = 13"
  by (simp add: tileZoom_def js_trunc_def exampleMap_def MAX_TILE_ZOOM_def)

lemma source_buffer_two_ancestors:
  assumes "tileRange ptt m = (minX, maxX, minY, maxY, z)"
    and "minX - opt_tileBuffer m \<le> bufX" and "bufX \<le> maxX + opt_tileBuffer m"
    and "minY - opt_tileBuffer m \<le> bufY" and "bufY \<le> maxY + opt_tileBuffer m"
  shows "{(bufX, bufY, z), (bufX div 2, bufY div 2, z - 1), (bufX div 4, bufY div 4, z - 2)}
           \<subseteq> set (bufferedTiles (updateTiles ptt m))"
    and "{joinTile (bufX, bufY, z), joinTile (bufX div 2, bufY div 2, z - 1),
          joinTile (bufX div 4, bufY div 4, z - 2)}
           \<subseteq> set (loadCandidates (tilesInView (updateTiles ptt m))
                    (bufferedTiles (updateTiles ptt m)))"
proof -
  have parent: "getParent (bufX, bufY, z) = (bufX div 2, bufY div 2, z - 1)"
    by (simp add: getParent_def)
  have grandparent: "getParent (getParent (bufX, bufY, z)) = (bufX div 4, bufY div 4, z - 2)"
    by (rule getParent_twice)
  note mem = mem_bufferTiles [OF assms(2-5), of z]
  have "bufferedTiles (updateTiles ptt m)
        = bufferTiles minX maxX minY maxY z (opt_tileBuffer m)"
    using assms(1) by (simp add: bufferedTiles_updateTiles bufTiles_def)
  then show buffered:
    "{(bufX, bufY, z), (bufX div 2, bufY div 2, z - 1), (bufX div 4, bufY div 4, z - 2)}
       \<subseteq> set (bufferedTiles (updateTiles ptt m))"
    using mem(1) mem(2) [unfolded parent] mem(3) [unfolded grandparent] by simp
  then show "{joinTile (bufX, bufY, z), joinTile (bufX div 2, bufY div 2, z - 1),
              joinTile (bufX div 4, bufY div 4, z - 2)}
             \<subseteq> set (loadCandidates (tilesInView (updateTiles ptt m))
                      (bufferedTiles (updateTiles ptt m)))"
    unfolding loadCandidates_tiles by blast
qed

subsection \<open>The buffer of the bundled copy\<close>

lemma bufferTiles_bundled_zoom:
  "t \<in> set (bufferTiles_bundled minX maxX minY maxY z b) \<Longrightarrow>
   snd (snd t) = z \<or> snd (snd t) = z + 1 \<or> snd (snd t) = z - 1"
  by (auto simp: bufferTiles_bundled_def getChildren_def getParent_def)

lemma mem_bufferTiles_bundled:
  assumes "minX - b \<le> bufX" "bufX \<le> maxX + b" "minY - b \<le> bufY" "bufY \<le> maxY + b"
  shows "set ((bufX, bufY, z) # getChildren (bufX, bufY, z) @ [getParent (bufX, bufY, z)])
           \<subseteq> set (bufferTiles_bundled minX maxX minY maxY z b)"
proof -
  let ?group = "\<lambda>bufX bufY. ((bufX, bufY, z) # getChildren (bufX, bufY, z))
                               @ [getParent (bufX, bufY, z)]"
  have x: "bufX \<in> set [minX - b..maxX + b]" and y: "bufY \<in> set [minY - b..maxY + b]"
    using assms by simp_all
  have "set (?group bufX bufY) \<subseteq> set (concat (map (?group bufX) [minY - b..maxY + b]))"
    using y by auto
  also have "\<dots> \<subseteq> set (bufferTiles_bundled minX maxX minY maxY z b)"
    unfolding bufferTiles_bundled_def using x by auto
  finally show ?thesis
    by simp
qed

lemma loadCandidates_bundled_zoom:
  assumes "tileRange ptt m = (minX, maxX, minY, maxY, z)"
    and "joinTile t \<in> set (loadCandidates_bundled ptt m)"
  shows "snd (snd t) = z \<or> snd (snd t) = z + 1 \<or> snd (snd t) = z - 1"
proof -
  from assms(2) obtain t' where key: "joinTile t = joinTile t'"
    and t': "t' \<in> set (viewTiles ptt m) \<union> set (bufTiles_bundled ptt m)"
    unfolding loadCandidates_bundled_def loadCandidates_tiles by blast
  from key have "t = t'"
    by (rule joinTile_inject)
  with t' have "t \<in> set (inViewTiles minX maxX minY maxY z)
                \<or> t \<in> set (bufferTiles_bundled minX maxX minY maxY z (opt_tileBuffer m))"
    using assms(1) by (simp add: viewTiles_def bufTiles_bundled_def)
  then show ?thesis
    using inViewTiles_z bufferTiles_bundled_zoom by blast
qed

text \<open>
  Claim C8, as amended. For every tile \<open>(bufX, bufY, z)\<close> of the buffered rectangle (the in-view
  rectangle widened by \<open>tileBuffer\<close> on every side): in the source copy of \<open>updateTiles\<close>,
  \<open>bufferedTiles\<close> holds the tile, its direct parent \<open>(bufX div 2, bufY div 2, z - 1)\<close> and its
  grandparent \<open>(bufX div 4, bufY div 4, z - 2)\<close>, and the keys of all three are in the load list
  before the removal of duplicates and the range filter; in the bundled copy, the buffered
  list holds the tile, its four children and its direct parent, their keys are in that load
  list, and the key of the grandparent is not.
\<close>

theorem buffered_ancestors_source_and_bundle:
  assumes "tileRange ptt m = (minX, maxX, minY, maxY, z)"
    and "minX - opt_tileBuffer m \<le> bufX" and "bufX \<le> maxX + opt_tileBuffer m"
    and "minY - opt_tileBuffer m \<le> bufY" and "bufY \<le> maxY + opt_tileBuffer m"
  shows "getParent (bufX, bufY, z) = (bufX div 2, bufY div 2, z - 1)
         \<and> getParent (getParent (bufX, bufY, z)) = (bufX div 4, bufY div 4, z - 2)
         \<and> {(bufX, bufY, z), (bufX div 2, bufY div 2, z - 1), (bufX div 4, bufY div 4, z - 2)}
             \<subseteq> set (bufferedTiles (updateTiles ptt m))
         \<and> {joinTile (bufX, bufY, z), joinTile (bufX div 2, bufY div 2, z - 1),
              joinTile (bufX div 4, bufY div 4, z - 2)}
             \<subseteq> set (loadCandidates (tilesInView (updateTiles ptt m))
                      (bufferedTiles (updateTiles ptt m)))
         \<and> set ((bufX, bufY, z) # getChildren (bufX, bufY, z) @ [(bufX div 2, bufY div 2, z - 1)])
             \<subseteq> set (bufTiles_bundled ptt m)
         \<and> joinTile ` set ((bufX, bufY, z) # getChildren (bufX, bufY, z)
                              @ [(bufX div 2, bufY div 2, z - 1)])
             \<subseteq> set (loadCandidates_bundled ptt m)
         \<and> joinTile (bufX div 4, bufY div 4, z - 2) \<notin> set (loadCandidates_bundled ptt m)"
proof (intro conjI)
  show parent: "getParent (bufX, bufY, z) = (bufX div 2, bufY div 2, z - 1)"
    by (simp add: getParent_def)
  show "getParent (getParent (bufX, bufY, z)) = (bufX div 4, bufY div 4, z - 2)"
    by (rule getParent_twice)
  show "{(bufX, bufY, z), (bufX div 2, bufY div 2, z - 1), (bufX div 4, bufY div 4, z - 2)}
          \<subseteq> set (bufferedTiles (updateTiles ptt m))"
    using assms by (rule source_buffer_two_ancestors(1))
  show "{joinTile (bufX, bufY, z), joinTile (bufX div 2, bufY div 2, z - 1),
         joinTile (bufX div 4, bufY div 4, z - 2)}
          \<subseteq> set (loadCandidates (tilesInView (updateTiles ptt m))
                   (bufferedTiles (updateTiles ptt m)))"
    using assms by (rule source_buffer_two_ancestors(2))
  have "bufTiles_bundled ptt m = bufferTiles_bundled minX maxX minY maxY z (opt_tileBuffer m)"
    using assms(1) by (simp add: bufTiles_bundled_def)
  then show bundled:
    "set ((bufX, bufY, z) # getChildren (bufX, bufY, z) @ [(bufX div 2, bufY div 2, z - 1)])
       \<subseteq> set (bufTiles_bundled ptt m)"
    using mem_bufferTiles_bundled [OF assms(2-5), of z] by (simp only: parent)
  then show "joinTile ` set ((bufX, bufY, z) # getChildren (bufX, bufY, z)
                               @ [(bufX div 2, bufY div 2, z - 1)])
             \<subseteq> set (loadCandidates_bundled ptt m)"
    unfolding loadCandidates_bundled_def loadCandidates_tiles by blast
  show "joinTile (bufX div 4, bufY div 4, z - 2) \<notin> set (loadCandidates_bundled ptt m)"
  proof
    assume "joinTile (bufX div 4, bufY div 4, z - 2) \<in> set (loadCandidates_bundled ptt m)"
    from loadCandidates_bundled_zoom [OF assms(1) this] show False
      by simp
  qed
qed

theorem buffered_ancestors_source_and_bundle_witness:
  "tileRange (\<lambda>lng lat z. (2412, 3080, z)) exampleMap = (2412, 2412, 3080, 3080, 13)
   \<and> 2412 - opt_tileBuffer exampleMap \<le> 2413 \<and> 2413 \<le> 2412 + opt_tileBuffer exampleMap
   \<and> 3080 - opt_tileBuffer exampleMap \<le> 3079 \<and> 3079 \<le> 3080 + opt_tileBuffer exampleMap
   \<and> {(2413, 3079, 13), (1206, 1539, 12), (603, 769, 11)}
       \<subseteq> set (bufferedTiles (updateTiles (\<lambda>lng lat z. (2412, 3080, z)) exampleMap))
   \<and> set [(2413, 3079, 13), (4826, 6158, 14), (4827, 6158, 14), (4827, 6159, 14),
            (4826, 6159, 14), (1206, 1539, 12)]
       \<subseteq> set (bufTiles_bundled (\<lambda>lng lat z. (2412, 3080, z)) exampleMap)"
proof -
  let ?ptt = "(\<lambda>lng lat z. (2412, 3080, z)) :: real \<Rightarrow> real \<Rightarrow> int \<Rightarrow> tile"
  have range: "tileRange ?ptt exampleMap = (2412, 2412, 3080, 3080, 13)"
    by (simp add: tileRange_const tileZoom_exampleMap)
  have b: "opt_tileBuffer exampleMap = 1"
    by (simp add: exampleMap_def)
  have x1: "2412 - opt_tileBuffer exampleMap \<le> 2413" and x2: "2413 \<le> 2412 + opt_tileBuffer exampleMap"
    and y1: "3080 - opt_tileBuffer exampleMap \<le> 3079" and y2: "3079 \<le> 3080 + opt_tileBuffer exampleMap"
    by (simp_all add: b)
  note inst = buffered_ancestors_source_and_bundle [OF range x1 x2 y1 y2]
  have "{(2413, 3079, 13), (2413 div 2, 3079 div 2, 13 - 1), (2413 div 4, 3079 div 4, 13 - 2)}
          \<subseteq> set (bufferedTiles (updateTiles ?ptt exampleMap))"
    by (rule inst [THEN conjunct2, THEN conjunct2, THEN conjunct1])
  then have source: "{(2413, 3079, 13), (1206, 1539, 12), (603, 769, 11)}
       \<subseteq> set (bufferedTiles (updateTiles ?ptt exampleMap))"
    by simp
  have "set ((2413, 3079, 13) # getChildren (2413, 3079, 13) @ [(2413 div 2, 3079 div 2, 13 - 1)])
          \<subseteq> set (bufTiles_bundled ?ptt exampleMap)"
    by (rule inst [THEN conjunct2, THEN conjunct2, THEN conjunct2, THEN conjunct2, THEN conjunct1])
  then have bundled: "set [(2413, 3079, 13), (4826, 6158, 14), (4827, 6158, 14), (4827, 6159, 14),
            (4826, 6159, 14), (1206, 1539, 12)]
       \<subseteq> set (bufTiles_bundled ?ptt exampleMap)"
    by (simp add: getChildren_def)
  show ?thesis
    by (rule conjI [OF range conjI [OF x1 conjI [OF x2 conjI [OF y1 conjI [OF y2
          conjI [OF source bundled]]]]]])
qed

text \<open>
  Claim C8 as stated fails on the bundled copy: for the README's map with the viewport on tile
  2412/3080/13, the tile 2413/3079/13 is buffered, and the key of its grandparent 603/769/11
  is not in the bundled copy's load list.
\<close>

theorem bundled_grandparent_counterexample:
  "(2413, 3079, 13) \<in> set (bufTiles_bundled (\<lambda>lng lat z. (2412, 3080, z)) exampleMap)
   \<and> getParent (getParent (2413, 3079, 13)) = (603, 769, 11)
   \<and> joinTile (603, 769, 11)
       \<notin> set (loadCandidates_bundled (\<lambda>lng lat z. (2412, 3080, z)) exampleMap)"
proof -
  let ?ptt = "(\<lambda>lng lat z. (2412, 3080, z)) :: real \<Rightarrow> real \<Rightarrow> int \<Rightarrow> tile"
  have range: "tileRange ?ptt exampleMap = (2412, 2412, 3080, 3080, 13)"
    by (simp add: tileRange_const tileZoom_exampleMap)
  have b: "opt_tileBuffer exampleMap = 1"
    by (simp add: exampleMap_def)
  have "bufTiles_bundled ?ptt exampleMap = bufferTiles_bundled 2412 2412 3080 3080 13 1"
    by (simp add: bufTiles_bundled_def range b)
  moreover have "set ((2413, 3079, 13) # getChildren (2413, 3079, 13)
                       @ [getParent (2413, 3079, 13)])
                 \<subseteq> set (bufferTiles_bundled 2412 2412 3080 3080 13 1)"
    by (rule mem_bufferTiles_bundled) simp_all
  ultimately have buffered: "(2413, 3079, 13) \<in> set (bufTiles_bundled ?ptt exampleMap)"
    by simp
  have grandparent: "getParent (getParent (2413, 3079, 13)) = (603, 769, 11)"
    by (simp add: getParent_twice)
  have missing: "joinTile (603, 769, 11) \<notin> set (loadCandidates_bundled ?ptt exampleMap)"
  proof
    assume "joinTile (603, 769, 11) \<in> set (loadCandidates_bundled ?ptt exampleMap)"
    from loadCandidates_bundled_zoom [OF range this] show False
      by simp
  qed
  show ?thesis
    by (rule conjI [OF buffered conjI [OF grandparent missing]])
qed

section \<open>The tile zoom\<close>





section \<open>The range filter\<close>

lemma dispatched_keys:
  "msg_tile ` set (dispatched ptt m)
   = {k \<in> set (passLoadList ptt m). \<not> truthy (getTile (tiles m) k)}"
  by (simp add: dispatched_eq image_image set_requested)

lemma passLoadList_valid:
  "set (passLoadList ptt m)
   = joinTile ` {t \<in> set (tilesInView (updateTiles ptt m) @ bufferedTiles (updateTiles ptt m)).
                   validTile t}"
  unfolding set_passLoadList loadCandidates_tiles tilesInView_updateTiles bufferedTiles_updateTiles
  by (auto simp: inRange_joinTile)

text \<open>
  Claim C3. Every request that a pass of \<open>updateTiles\<close> posts is for the key of a candidate
  tile (in view or buffered) with \<open>0 \<le> x < 2^z\<close>, \<open>0 \<le> y < 2^z\<close> and
  \<open>0 \<le> z \<le> MAX_TILE_ZOOM\<close>; a candidate tile outside these ranges is not in the load list
  that the dispatch loop runs over, and no request is posted for its key.
\<close>

theorem no_request_out_of_range:
  "(\<forall>msg \<in> set (dispatched ptt m).
      \<exists>t \<in> set (tilesInView (updateTiles ptt m) @ bufferedTiles (updateTiles ptt m)).
        msg_tile msg = joinTile t \<and> validTile t)
   \<and> (t \<in> set (tilesInView (updateTiles ptt m) @ bufferedTiles (updateTiles ptt m)) \<longrightarrow>
        \<not> validTile t \<longrightarrow>
        joinTile t \<notin> set (passLoadList ptt m)
        \<and> joinTile t \<notin> msg_tile ` set (dispatched ptt m))"
proof (intro conjI ballI impI)
  fix msg
  assume "msg \<in> set (dispatched ptt m)"
  then have "msg_tile msg \<in> set (passLoadList ptt m)"
    using dispatched_keys [of ptt m] by blast
  then show "\<exists>t \<in> set (tilesInView (updateTiles ptt m) @ bufferedTiles (updateTiles ptt m)).
               msg_tile msg = joinTile t \<and> validTile t"
    unfolding passLoadList_valid by blast
next
  assume invalid: "\<not> validTile t"
  show not_listed: "joinTile t \<notin> set (passLoadList ptt m)"
  proof
    assume "joinTile t \<in> set (passLoadList ptt m)"
    then obtain t' where "joinTile t = joinTile t'" and "validTile t'"
      unfolding passLoadList_valid by blast
    then show False
      using invalid joinTile_inject by blast
  qed
  then show "joinTile t \<notin> msg_tile ` set (dispatched ptt m)"
    using dispatched_keys [of ptt m] by blast
qed

theorem no_request_out_of_range_witness:
  "(- 1, 0, 13) \<in> set (tilesInView (updateTiles (\<lambda>lng lat z. (0, 0, z)) exampleMap)
                        @ bufferedTiles (updateTiles (\<lambda>lng lat z. (0, 0, z)) exampleMap))
   \<and> \<not> validTile (- 1, 0, 13)
   \<and> joinTile (- 1, 0, 13) \<notin> set (passLoadList (\<lambda>lng lat z. (0, 0, z)) exampleMap)
   \<and> joinTile (- 1, 0, 13) \<notin> msg_tile ` set (dispatched (\<lambda>lng lat z. (0, 0, z)) exampleMap)"
proof -
  let ?ptt = "(\<lambda>lng lat z. (0, 0, z)) :: real \<Rightarrow> real \<Rightarrow> int \<Rightarrow> tile"
  have z: "tileZoom exampleMap = 13"
    by (simp add: tileZoom_def js_trunc_def exampleMap_def MAX_TILE_ZOOM_def)
  have b: "opt_tileBuffer exampleMap = 1"
    by (simp add: exampleMap_def)
  have "bufferedTiles (updateTiles ?ptt exampleMap) = bufferTiles 0 0 0 0 13 1"
    by (simp add: bufferedTiles_updateTiles bufTiles_def tileRange_const z b)
  moreover have "(- 1, 0, 13) \<in> set (bufferTiles 0 0 0 0 13 1)"
    by (rule mem_bufferTiles) simp_all
  ultimately have candidate:
    "(- 1, 0, 13) \<in> set (tilesInView (updateTiles ?ptt exampleMap)
                           @ bufferedTiles (updateTiles ?ptt exampleMap))"
    by simp
  have invalid: "\<not> validTile (- 1, 0, 13)"
    by (simp add: validTile_def)
  from no_request_out_of_range [of ?ptt exampleMap "(- 1, 0, 13)"] candidate invalid
  have "joinTile (- 1, 0, 13) \<notin> set (passLoadList ?ptt exampleMap)
        \<and> joinTile (- 1, 0, 13) \<notin> msg_tile ` set (dispatched ?ptt exampleMap)"
    by blast
  with candidate invalid show ?thesis by blast
qed

section \<open>At most one request per key\<close>

lemma count_distinct_keys:
  "distinct ks \<Longrightarrow>
   length (filter (\<lambda>msg. msg_tile msg = k)
             (map (\<lambda>key. \<lparr>msg_tile = key, msg_layers = ls, msg_url = url\<rparr>) ks))
   = (if k \<in> set ks then 1 else 0)"
proof -
  assume "distinct ks"
  then have "filter (\<lambda>key. key = k) ks = (if k \<in> set ks then [k] else [])"
    by (rule filter_eq_distinct)
  then show ?thesis
    by (simp add: filter_map o_def)
qed

lemma requests_updateTiles:
  "requests k (updateTiles ptt m)
   = requests k m + (if k \<in> msg_tile ` set (dispatched ptt m) then 1 else 0)"
proof -
  have "msg_tile ` set (dispatched ptt m) = set (requested (tiles m) (passLoadList ptt m))"
    by (simp add: dispatched_eq image_image)
  then show ?thesis
    using count_distinct_keys [OF distinct_requested, of k "opt_layers m" "opt_tileServerURL m"
        "tiles m" "passLoadList ptt m"]
    by (simp add: requests_def posted_updateTiles)
qed

lemma held_not_dispatched:
  "truthy (getTile (tiles m) k) \<Longrightarrow> k \<notin> msg_tile ` set (dispatched ptt m)"
  by (simp add: dispatched_keys)

lemma dispatched_placeholder:
  "k \<in> msg_tile ` set (dispatched ptt m) \<Longrightarrow> getTile (tiles (updateTiles ptt m)) k = Data []"
  by (simp add: tiles_updateTiles dispatched_eq image_image)

lemma held_updateTiles:
  assumes "truthy (getTile (tiles m) k)"
  shows "requests k (updateTiles ptt m) = requests k m"
    and "truthy (getTile (tiles (updateTiles ptt m)) k)"
proof -
  show "requests k (updateTiles ptt m) = requests k m"
    using held_not_dispatched [OF assms] by (simp add: requests_updateTiles)
  show "truthy (getTile (tiles (updateTiles ptt m)) k)"
    using assms by (simp add: tiles_updateTiles)
qed

lemma held_step:
  assumes "truthy (getTile (tiles m) k)" and "\<not> resolves k e"
  shows "requests k (step ptt m e) = requests k m"
    and "truthy (getTile (tiles (step ptt m e)) k)"
proof -
  have "requests k (step ptt m e) = requests k m \<and> truthy (getTile (tiles (step ptt m e)) k)"
  proof (cases e)
    case (Pass c)
    have "truthy (getTile (tiles (m\<lparr>camera := c\<rparr>)) k)"
      using assms(1) by simp
    from held_updateTiles [OF this, of ptt] show ?thesis
      unfolding Pass by (simp add: requests_def)
  next
    case (Reply key tileData)
    then have "key \<noteq> k" using assms(2) by simp
    then show ?thesis
      unfolding Reply using assms(1)
      by (simp add: handleTileWorker_def requests_def getTile_setTile)
  qed
  then show "requests k (step ptt m e) = requests k m"
    and "truthy (getTile (tiles (step ptt m e)) k)"
    by simp_all
qed

lemma held_run:
  "truthy (getTile (tiles m) k) \<Longrightarrow> list_all (\<lambda>e. \<not> resolves k e) es \<Longrightarrow>
   requests k (run ptt m es) = requests k m \<and> truthy (getTile (tiles (run ptt m es)) k)"
proof (induction es arbitrary: m)
  case Nil
  then show ?case by simp
next
  case (Cons e es)
  from Cons.prems have e: "\<not> resolves k e" and es: "list_all (\<lambda>e. \<not> resolves k e) es"
    by simp_all
  from held_step [OF Cons.prems(1) e, of ptt] Cons.IH [OF _ es, of "step ptt m e"]
  show ?case by simp
qed

lemma step_at_most_one:
  assumes "\<not> resolves k e"
  shows "requests k (step ptt m e) = requests k m
         \<or> (requests k (step ptt m e) = requests k m + 1
             \<and> truthy (getTile (tiles (step ptt m e)) k))"
proof (cases e)
  case (Pass c)
  let ?m = "m\<lparr>camera := c\<rparr>"
  have same: "requests k ?m = requests k m"
    by (simp add: requests_def)
  show ?thesis
  proof (cases "k \<in> msg_tile ` set (dispatched ptt ?m)")
    case True
    then show ?thesis
      unfolding Pass using dispatched_placeholder [OF True]
      by (simp add: requests_updateTiles same)
  next
    case False
    then show ?thesis
      unfolding Pass by (simp add: requests_updateTiles same)
  qed
next
  case (Reply key tileData)
  then show ?thesis
    by (simp add: handleTileWorker_def requests_def)
qed

lemma run_at_most_one:
  "list_all (\<lambda>e. \<not> resolves k e) es \<Longrightarrow> requests k (run ptt m es) \<le> requests k m + 1"
proof (induction es arbitrary: m)
  case Nil
  then show ?case by simp
next
  case (Cons e es)
  from Cons.prems have e: "\<not> resolves k e" and es: "list_all (\<lambda>e. \<not> resolves k e) es"
    by simp_all
  from step_at_most_one [OF e, of ptt m] show ?case
  proof
    assume "requests k (step ptt m e) = requests k m"
    then show ?thesis
      using Cons.IH [OF es, of "step ptt m e"] by simp
  next
    assume "requests k (step ptt m e) = requests k m + 1
            \<and> truthy (getTile (tiles (step ptt m e)) k)"
    then show ?thesis
      using held_run [OF _ es, of "step ptt m e" ptt] by simp
  qed
qed

lemma const_tile_listed:
  assumes "tileZoom m = z" and "validTile (a, b, z)"
  shows "joinTile (a, b, z) \<in> set (passLoadList (\<lambda>lng lat z. (a, b, z)) m)"
proof -
  have "0 \<le> a" and "0 \<le> b"
    using assms(2) by (simp_all add: validTile_def)
  then have "tilesInView (updateTiles (\<lambda>lng lat z. (a, b, z)) m) = inViewTiles a a b b z"
    by (simp add: tilesInView_updateTiles viewTiles_def tileRange_const assms(1))
  then have "(a, b, z) \<in> set (tilesInView (updateTiles (\<lambda>lng lat z. (a, b, z)) m)
                              @ bufferedTiles (updateTiles (\<lambda>lng lat z. (a, b, z)) m))"
    by (simp add: inViewTiles_def)
  then show ?thesis
    unfolding passLoadList_valid using assms(2) by blast
qed

lemma camera_updateTiles: "camera (updateTiles ptt m) = camera m"
  by (simp add: updateTiles_loadTiles loadTiles_frame)

text \<open>
  Claim C1. While no reply for the key \<open>k\<close> is handled, any sequence of passes of
  \<open>updateTiles\<close> (with whatever cameras, and interleaved with replies for other keys) posts
  at most one request for \<open>k\<close>; once the entry of \<open>k\<close> is truthy, as the empty hold is, no
  further request for \<open>k\<close> is posted and the entry stays truthy. In one pass: a key whose
  entry is the empty hold is not dispatched, whatever the load list; and a key that is
  dispatched has the empty hold afterwards and exactly one more request.
\<close>

theorem one_request_while_unresolved:
  assumes "list_all (\<lambda>e. \<not> resolves k e) es"
  shows "requests k (run ptt m es) \<le> requests k m + 1
         \<and> (truthy (getTile (tiles m) k) \<longrightarrow>
              requests k (run ptt m es) = requests k m
              \<and> truthy (getTile (tiles (run ptt m es)) k))
         \<and> (getTile (tiles m) k = Data [] \<longrightarrow> k \<notin> msg_tile ` set (dispatched ptt m))
         \<and> (k \<in> msg_tile ` set (dispatched ptt m) \<longrightarrow>
              getTile (tiles (updateTiles ptt m)) k = Data []
              \<and> requests k (updateTiles ptt m) = requests k m + 1)"
proof (intro conjI impI)
  show "requests k (run ptt m es) \<le> requests k m + 1"
    using assms by (rule run_at_most_one)
next
  assume "truthy (getTile (tiles m) k)"
  then show "requests k (run ptt m es) = requests k m"
    and "truthy (getTile (tiles (run ptt m es)) k)"
    using held_run [OF _ assms] by simp_all
next
  assume "getTile (tiles m) k = Data []"
  then have "truthy (getTile (tiles m) k)"
    by simp
  then show "k \<notin> msg_tile ` set (dispatched ptt m)"
    by (rule held_not_dispatched)
next
  assume "k \<in> msg_tile ` set (dispatched ptt m)"
  then show "getTile (tiles (updateTiles ptt m)) k = Data []"
    and "requests k (updateTiles ptt m) = requests k m + 1"
    by (simp_all add: dispatched_placeholder requests_updateTiles)
qed

theorem one_request_while_unresolved_witness:
  "list_all (\<lambda>e. \<not> resolves (joinTile (2412, 3080, 13)) e)
     [Pass \<lparr>cam_x = 0, cam_y = 0, cam_zoom = 13\<rparr>,
      Reply (joinTile (2413, 3080, 13)) (Data []),
      Pass \<lparr>cam_x = 0, cam_y = 0, cam_zoom = 13.5\<rparr>]
   \<and> joinTile (2412, 3080, 13)
       \<in> msg_tile ` set (dispatched (\<lambda>lng lat z. (2412, 3080, z)) exampleMap)
   \<and> requests (joinTile (2412, 3080, 13))
         (run (\<lambda>lng lat z. (2412, 3080, z))
            (updateTiles (\<lambda>lng lat z. (2412, 3080, z)) exampleMap)
            [Pass \<lparr>cam_x = 0, cam_y = 0, cam_zoom = 13\<rparr>,
             Reply (joinTile (2413, 3080, 13)) (Data []),
             Pass \<lparr>cam_x = 0, cam_y = 0, cam_zoom = 13.5\<rparr>])
       = 1"
proof -
  let ?k = "joinTile (2412, 3080, 13)"
  let ?es = "[Pass \<lparr>cam_x = 0, cam_y = 0, cam_zoom = 13\<rparr>,
              Reply (joinTile (2413, 3080, 13)) (Data []),
              Pass \<lparr>cam_x = 0, cam_y = 0, cam_zoom = 13.5\<rparr>]"
  let ?ptt = "(\<lambda>lng lat z. (2412, 3080, z)) :: real \<Rightarrow> real \<Rightarrow> int \<Rightarrow> tile"
  let ?m = "updateTiles ?ptt exampleMap"
  have "joinTile (2413, 3080, 13) \<noteq> ?k"
    using joinTile_inject [of "(2413, 3080, 13)" "(2412, 3080, 13)"] by auto
  then have unresolved: "list_all (\<lambda>e. \<not> resolves ?k e) ?es"
    by simp
  have "validTile (2412, 3080, 13)"
    by (simp add: validTile_def MAX_TILE_ZOOM_def)
  then have "?k \<in> set (passLoadList ?ptt exampleMap)"
    using tileZoom_exampleMap by (rule const_tile_listed [rotated])
  moreover have "\<not> truthy (getTile (tiles exampleMap) ?k)"
    by (simp add: exampleMap_def getTile_def)
  ultimately have first: "?k \<in> msg_tile ` set (dispatched ?ptt exampleMap)"
    unfolding dispatched_keys by simp
  have none: "requests ?k exampleMap = 0"
    by (simp add: requests_def exampleMap_def)
  note pass = one_request_while_unresolved [OF unresolved, of ?ptt exampleMap]
  note later = one_request_while_unresolved [OF unresolved, of ?ptt ?m]
  from pass first have hold: "getTile (tiles ?m) ?k = Data []"
    and one: "requests ?k ?m = requests ?k exampleMap + 1"
    by blast+
  from hold have "truthy (getTile (tiles ?m) ?k)"
    by simp
  with later have "requests ?k (run ?ptt ?m ?es) = requests ?k ?m"
    by blast
  then have "requests ?k (run ?ptt ?m ?es) = 1"
    using one none by simp
  with unresolved first show ?thesis
    by (simp only: simp_thms)
qed

section \<open>A failed tile is requested again\<close>

text \<open>
  Claim C10. When \<open>fetchTile\<close> throws (the request or the decoding fails), the worker replies
  with the tile key and no \<open>tileData\<close>; \<open>handleTileWorker\<close> stores that \<open>undefined\<close> as the
  entry of the key, which is falsy; so the next pass of \<open>updateTiles\<close> whose load list
  contains the key dispatches a new request for it (and stores the empty hold again).
\<close>

theorem failed_tile_requested_again:
  assumes "fetchTile ec (msg_layers msg) response = Inl e"
  shows "tileWorker ec msg response = (msg_tile msg, Undefined)
         \<and> getTile (tiles (handleTileWorker m (tileWorker ec msg response))) (msg_tile msg)
             = Undefined
         \<and> \<not> truthy (getTile (tiles (handleTileWorker m (tileWorker ec msg response)))
                  (msg_tile msg))
         \<and> (msg_tile msg \<in> set (passLoadList ptt (handleTileWorker m (tileWorker ec msg response)))
              \<longrightarrow>
              msg_tile msg
                \<in> msg_tile ` set (dispatched ptt (handleTileWorker m (tileWorker ec msg response)))
              \<and> requests (msg_tile msg)
                   (updateTiles ptt (handleTileWorker m (tileWorker ec msg response)))
                 = requests (msg_tile msg) m + 1
              \<and> getTile (tiles (updateTiles ptt (handleTileWorker m (tileWorker ec msg response))))
                   (msg_tile msg) = Data [])"
proof -
  let ?m = "handleTileWorker m (tileWorker ec msg response)"
  have reply: "tileWorker ec msg response = (msg_tile msg, Undefined)"
    using assms by (simp add: tileWorker_def)
  have entry: "getTile (tiles ?m) (msg_tile msg) = Undefined"
    by (simp add: reply handleTileWorker_def getTile_setTile)
  have same: "requests (msg_tile msg) ?m = requests (msg_tile msg) m"
    by (simp add: reply handleTileWorker_def requests_def)
  have again: "msg_tile msg \<in> msg_tile ` set (dispatched ptt ?m)
               \<and> requests (msg_tile msg) (updateTiles ptt ?m) = requests (msg_tile msg) m + 1
               \<and> getTile (tiles (updateTiles ptt ?m)) (msg_tile msg) = Data []"
    if listed: "msg_tile msg \<in> set (passLoadList ptt ?m)"
  proof -
    have "msg_tile msg \<in> msg_tile ` set (dispatched ptt ?m)"
      unfolding dispatched_keys using listed entry by simp
    then show ?thesis
      using same by (simp add: requests_updateTiles dispatched_placeholder)
  qed
  from reply entry again show ?thesis
    by simp
qed

theorem failed_tile_requested_again_witness:
  "fetchTile (\<lambda>vertices holes dim. [])
     (msg_layers \<lparr>msg_tile = joinTile (2412, 3080, 13), msg_layers = opt_layers exampleMap,
                  msg_url = opt_tileServerURL exampleMap\<rparr>)
     (Inl NetworkError) = Inl NetworkError
   \<and> msg_tile \<lparr>msg_tile = joinTile (2412, 3080, 13), msg_layers = opt_layers exampleMap,
                msg_url = opt_tileServerURL exampleMap\<rparr>
       \<in> set (passLoadList (\<lambda>lng lat z. (2412, 3080, z))
                (handleTileWorker (updateTiles (\<lambda>lng lat z. (2412, 3080, z)) exampleMap)
                   (tileWorker (\<lambda>vertices holes dim. [])
                      \<lparr>msg_tile = joinTile (2412, 3080, 13), msg_layers = opt_layers exampleMap,
                       msg_url = opt_tileServerURL exampleMap\<rparr>
                      (Inl NetworkError))))
   \<and> requests (joinTile (2412, 3080, 13))
         (updateTiles (\<lambda>lng lat z. (2412, 3080, z)) exampleMap) = 1
   \<and> requests (joinTile (2412, 3080, 13))
         (updateTiles (\<lambda>lng lat z. (2412, 3080, z))
            (handleTileWorker (updateTiles (\<lambda>lng lat z. (2412, 3080, z)) exampleMap)
               (tileWorker (\<lambda>vertices holes dim. [])
                  \<lparr>msg_tile = joinTile (2412, 3080, 13), msg_layers = opt_layers exampleMap,
                   msg_url = opt_tileServerURL exampleMap\<rparr>
                  (Inl NetworkError))))
       = 2"
proof -
  let ?k = "joinTile (2412, 3080, 13)"
  let ?msg = "\<lparr>msg_tile = ?k, msg_layers = opt_layers exampleMap,
               msg_url = opt_tileServerURL exampleMap\<rparr>"
  let ?ec = "(\<lambda>vertices holes dim. []) :: earcut"
  let ?ptt = "(\<lambda>lng lat z. (2412, 3080, z)) :: real \<Rightarrow> real \<Rightarrow> int \<Rightarrow> tile"
  let ?m = "updateTiles ?ptt exampleMap"
  let ?m' = "handleTileWorker ?m (tileWorker ?ec ?msg (Inl NetworkError))"
  have failed: "fetchTile ?ec (msg_layers ?msg) (Inl NetworkError) = Inl NetworkError"
    by (simp add: fetchTile_def)
  have valid: "validTile (2412, 3080, 13)"
    by (simp add: validTile_def MAX_TILE_ZOOM_def)
  have "camera ?m' = camera exampleMap"
    by (simp add: handleTileWorker_def camera_updateTiles split: prod.splits)
  then have "tileZoom ?m' = 13"
    using tileZoom_exampleMap by (simp add: tileZoom_def)
  then have "?k \<in> set (passLoadList ?ptt ?m')"
    using valid by (rule const_tile_listed)
  then have listed: "msg_tile ?msg \<in> set (passLoadList ?ptt ?m')"
    by simp
  have "?k \<in> set (passLoadList ?ptt exampleMap)"
    using tileZoom_exampleMap valid by (rule const_tile_listed)
  moreover have "\<not> truthy (getTile (tiles exampleMap) ?k)"
    by (simp add: exampleMap_def getTile_def)
  ultimately have "?k \<in> msg_tile ` set (dispatched ?ptt exampleMap)"
    unfolding dispatched_keys by simp
  moreover have "requests ?k exampleMap = 0"
    by (simp add: requests_def exampleMap_def)
  ultimately have one: "requests ?k ?m = 1"
    by (simp add: requests_updateTiles)
  from failed_tile_requested_again [OF failed, of ?m ?ptt] listed
  have "requests (msg_tile ?msg) (updateTiles ?ptt ?m') = requests (msg_tile ?msg) ?m + 1"
    by blast
  then have two: "requests ?k (updateTiles ?ptt ?m') = 2"
    using one by simp
  from failed listed one two show ?thesis
    by (simp only: simp_thms)
qed

section \<open>Placeholder tiles\<close>

lemma orEmpty_not_lengthPositive: "\<not> lengthPositive e \<Longrightarrow> orEmpty e = []"
  by (cases e) simp_all

lemma children_fold:
  "fold (\<lambda>child childFeatureSets.
           (let featureSet = getTile cache child
            in if lengthPositive featureSet
               then childFeatureSets @ orEmpty featureSet
               else childFeatureSets)) children acc
   = acc @ concat (map (\<lambda>child. orEmpty (getTile cache child)) children)"
  by (induction children arbitrary: acc) (simp_all add: Let_def orEmpty_not_lengthPositive)

lemma getPlaceholderTile_closed_form:
  "getPlaceholderTile cache t
   = (if lengthPositive (getTile cache (joinTile (getParent t)))
      then orEmpty (getTile cache (joinTile (getParent t)))
      else concat (map (\<lambda>child. orEmpty (getTile cache (joinTile child))) (getChildren t)))"
  unfolding getPlaceholderTile_def children_fold by (simp add: Let_def comp_def)

text \<open>
  Claim C2, as amended. For a tile whose cache entry is the empty array, \<open>draw\<close> renders the
  placeholder; the placeholder is the entry of the direct parent when that entry is a
  non-empty array (no ancestor further up is looked at), otherwise the concatenation, in the
  order of \<open>getChildren\<close>, of the entries of the four direct children that are non-empty
  arrays; when neither the parent nor a child has a non-empty array it is empty.
\<close>

theorem getPlaceholderTile_parent_or_children:
  "(getTile cache (joinTile t) = Data [] \<longrightarrow>
      drawFeatureSets cache t = getPlaceholderTile cache t)
   \<and> (lengthPositive (getTile cache (joinTile (getParent t))) \<longrightarrow>
        getPlaceholderTile cache t = orEmpty (getTile cache (joinTile (getParent t))))
   \<and> (\<not> lengthPositive (getTile cache (joinTile (getParent t))) \<longrightarrow>
        getPlaceholderTile cache t
        = concat (map (\<lambda>child. orEmpty (getTile cache (joinTile child)))
                    (filter (\<lambda>child. lengthPositive (getTile cache (joinTile child)))
                       (getChildren t))))
   \<and> (\<not> lengthPositive (getTile cache (joinTile (getParent t))) \<longrightarrow>
        list_all (\<lambda>child. \<not> lengthPositive (getTile cache (joinTile child))) (getChildren t) \<longrightarrow>
        getPlaceholderTile cache t = [])"
proof (intro conjI impI)
  assume "getTile cache (joinTile t) = Data []"
  then show "drawFeatureSets cache t = getPlaceholderTile cache t"
    by (simp add: drawFeatureSets_def)
next
  assume "lengthPositive (getTile cache (joinTile (getParent t)))"
  then show "getPlaceholderTile cache t = orEmpty (getTile cache (joinTile (getParent t)))"
    by (simp add: getPlaceholderTile_closed_form)
next
  have skip: "concat (map (\<lambda>child. orEmpty (getTile cache (joinTile child))) cs)
        = concat (map (\<lambda>child. orEmpty (getTile cache (joinTile child)))
                    (filter (\<lambda>child. lengthPositive (getTile cache (joinTile child))) cs))"
    for cs
    by (induction cs) (simp_all add: orEmpty_not_lengthPositive)
  assume "\<not> lengthPositive (getTile cache (joinTile (getParent t)))"
  then show "getPlaceholderTile cache t
        = concat (map (\<lambda>child. orEmpty (getTile cache (joinTile child)))
                    (filter (\<lambda>child. lengthPositive (getTile cache (joinTile child)))
                       (getChildren t)))"
    using skip [of "getChildren t"] by (simp add: getPlaceholderTile_closed_form)
next
  have none: "list_all (\<lambda>child. \<not> lengthPositive (getTile cache (joinTile child))) cs \<Longrightarrow>
        concat (map (\<lambda>child. orEmpty (getTile cache (joinTile child))) cs) = []" for cs
    by (induction cs) (simp_all add: orEmpty_not_lengthPositive)
  assume "\<not> lengthPositive (getTile cache (joinTile (getParent t)))"
    and "list_all (\<lambda>child. \<not> lengthPositive (getTile cache (joinTile child))) (getChildren t)"
  then show "getPlaceholderTile cache t = []"
    using none [of "getChildren t"] by (simp add: getPlaceholderTile_closed_form)
qed

lemma joinTile_examples:
  "joinTile (4, 4, 3) = ''4/4/3''" "joinTile (2, 2, 2) = ''2/2/2''"
  "joinTile (1, 1, 1) = ''1/1/1''" "joinTile (0, 0, 0) = ''0/0/0''"
  "joinTile (8, 8, 4) = ''8/8/4''" "joinTile (9, 8, 4) = ''9/8/4''"
  "joinTile (9, 9, 4) = ''9/9/4''" "joinTile (8, 9, 4) = ''8/9/4''"
  by (simp_all add: joinTile_def showInt_def showNat.simps digitChar_def)

theorem getPlaceholderTile_parent_or_children_witness:
  "getTile (cacheOf [((4, 4, 3), Data []),
                     ((2, 2, 2), Data [\<lparr>fs_layer = ''park'', fs_type = PrimLine,
                                         fs_vertices = []\<rparr>])])
     (joinTile (4, 4, 3)) = Data []
   \<and> lengthPositive
         (getTile (cacheOf [((4, 4, 3), Data []),
                            ((2, 2, 2), Data [\<lparr>fs_layer = ''park'', fs_type = PrimLine,
                                                fs_vertices = []\<rparr>])])
            (joinTile (getParent (4, 4, 3))))
   \<and> drawFeatureSets
         (cacheOf [((4, 4, 3), Data []),
                   ((2, 2, 2), Data [\<lparr>fs_layer = ''park'', fs_type = PrimLine,
                                       fs_vertices = []\<rparr>])])
         (4, 4, 3)
       = [\<lparr>fs_layer = ''park'', fs_type = PrimLine, fs_vertices = []\<rparr>]
   \<and> \<not> lengthPositive
         (getTile (cacheOf [((4, 4, 3), Data []), ((2, 2, 2), Data []),
                            ((8, 8, 4), Data [\<lparr>fs_layer = ''water'', fs_type = PrimPolygon,
                                                fs_vertices = []\<rparr>]),
                            ((9, 9, 4), Data [\<lparr>fs_layer = ''water'', fs_type = PrimPoint,
                                                fs_vertices = []\<rparr>])])
            (joinTile (getParent (4, 4, 3))))
   \<and> drawFeatureSets
         (cacheOf [((4, 4, 3), Data []), ((2, 2, 2), Data []),
                   ((8, 8, 4), Data [\<lparr>fs_layer = ''water'', fs_type = PrimPolygon,
                                       fs_vertices = []\<rparr>]),
                   ((9, 9, 4), Data [\<lparr>fs_layer = ''water'', fs_type = PrimPoint,
                                       fs_vertices = []\<rparr>])])
         (4, 4, 3)
       = [\<lparr>fs_layer = ''water'', fs_type = PrimPolygon, fs_vertices = []\<rparr>,
          \<lparr>fs_layer = ''water'', fs_type = PrimPoint, fs_vertices = []\<rparr>]
   \<and> list_all (\<lambda>child. \<not> lengthPositive
                             (getTile (cacheOf [((4, 4, 3), Data [])]) (joinTile child)))
         (getChildren (4, 4, 3))
   \<and> drawFeatureSets (cacheOf [((4, 4, 3), Data [])]) (4, 4, 3) = []"
proof -
  let ?p = "\<lparr>fs_layer = ''park'', fs_type = PrimLine, fs_vertices = []\<rparr>"
  let ?a = "\<lparr>fs_layer = ''water'', fs_type = PrimPolygon, fs_vertices = []\<rparr>"
  let ?b = "\<lparr>fs_layer = ''water'', fs_type = PrimPoint, fs_vertices = []\<rparr>"
  let ?A = "cacheOf [((4, 4, 3), Data []), ((2, 2, 2), Data [?p])]"
  let ?B = "cacheOf [((4, 4, 3), Data []), ((2, 2, 2), Data []),
                     ((8, 8, 4), Data [?a]), ((9, 9, 4), Data [?b])]"
  let ?C = "cacheOf [((4, 4, 3), Data [])]"
  have A: "getTile ?A ''4/4/3'' = Data []" "getTile ?A ''2/2/2'' = Data [?p]"
    by (simp_all add: cacheOf_def joinTile_examples getTile_setTile)
  have B: "getTile ?B ''4/4/3'' = Data []" "getTile ?B ''2/2/2'' = Data []"
    "getTile ?B ''8/8/4'' = Data [?a]" "getTile ?B ''9/8/4'' = Undefined"
    "getTile ?B ''9/9/4'' = Data [?b]" "getTile ?B ''8/9/4'' = Undefined"
    by (simp_all add: cacheOf_def joinTile_examples getTile_setTile, simp_all add: getTile_def)
  have C: "getTile ?C ''4/4/3'' = Data []" "getTile ?C ''2/2/2'' = Undefined"
    "getTile ?C ''8/8/4'' = Undefined" "getTile ?C ''9/8/4'' = Undefined"
    "getTile ?C ''9/9/4'' = Undefined" "getTile ?C ''8/9/4'' = Undefined"
    by (simp_all add: cacheOf_def joinTile_examples getTile_setTile, simp_all add: getTile_def)
  have parent: "getParent (4, 4, 3) = (2, 2, 2)"
    by (simp add: getParent_def)
  have children: "getChildren (4, 4, 3) = [(8, 8, 4), (9, 8, 4), (9, 9, 4), (8, 9, 4)]"
    by (simp add: getChildren_def)
  note instA = getPlaceholderTile_parent_or_children [of ?A "(4, 4, 3)"]
  note instB = getPlaceholderTile_parent_or_children [of ?B "(4, 4, 3)"]
  note instC = getPlaceholderTile_parent_or_children [of ?C "(4, 4, 3)"]
  have a1: "getTile ?A (joinTile (4, 4, 3)) = Data []"
    by (simp add: joinTile_examples A)
  have a2: "lengthPositive (getTile ?A (joinTile (getParent (4, 4, 3))))"
    by (simp add: parent joinTile_examples A)
  from instA a1 a2 have "drawFeatureSets ?A (4, 4, 3)
                         = orEmpty (getTile ?A (joinTile (getParent (4, 4, 3))))"
    by simp
  then have a3: "drawFeatureSets ?A (4, 4, 3) = [?p]"
    by (simp add: parent joinTile_examples A)
  have b1: "getTile ?B (joinTile (4, 4, 3)) = Data []"
    by (simp add: joinTile_examples B)
  have b2: "\<not> lengthPositive (getTile ?B (joinTile (getParent (4, 4, 3))))"
    by (simp add: parent joinTile_examples B)
  from instB b1 b2 have "drawFeatureSets ?B (4, 4, 3)
        = concat (map (\<lambda>child. orEmpty (getTile ?B (joinTile child)))
                    (filter (\<lambda>child. lengthPositive (getTile ?B (joinTile child)))
                       (getChildren (4, 4, 3))))"
    by simp
  then have b3: "drawFeatureSets ?B (4, 4, 3) = [?a, ?b]"
    by (simp add: children joinTile_examples B)
  have c1: "getTile ?C (joinTile (4, 4, 3)) = Data []"
    by (simp add: joinTile_examples C)
  have c2: "\<not> lengthPositive (getTile ?C (joinTile (getParent (4, 4, 3))))"
    by (simp add: parent joinTile_examples C)
  have c3: "list_all (\<lambda>child. \<not> lengthPositive (getTile ?C (joinTile child)))
              (getChildren (4, 4, 3))"
    by (simp add: children joinTile_examples C)
  have "drawFeatureSets ?C (4, 4, 3) = getPlaceholderTile ?C (4, 4, 3)"
    by (rule instC [THEN conjunct1, THEN mp, OF c1])
  also have "\<dots> = []"
    by (rule instC [THEN conjunct2, THEN conjunct2, THEN conjunct2, THEN mp, OF c2, THEN mp, OF c3])
  finally have c4: "drawFeatureSets ?C (4, 4, 3) = []" .
  from a1 a2 a3 b2 b3 c3 c4 show ?thesis
    by (simp only: simp_thms)
qed

text \<open>
  Claim C2 as stated fails where the direct parent is still pending and the grandparent is
  ready: the nearest ready ancestor of 4/4/3 is 1/1/1, but \<open>getPlaceholderTile\<close> looks at
  2/2/2 only, finds no child either, and returns nothing.
\<close>

theorem getPlaceholderTile_ancestor_counterexample:
  "getTile (cacheOf [((4, 4, 3), Data []), ((2, 2, 2), Data []),
                     ((1, 1, 1), Data [\<lparr>fs_layer = ''water'', fs_type = PrimPolygon,
                                         fs_vertices = []\<rparr>])])
     (joinTile (4, 4, 3)) = Data []
   \<and> spec_nearestAncestor
         (cacheOf [((4, 4, 3), Data []), ((2, 2, 2), Data []),
                   ((1, 1, 1), Data [\<lparr>fs_layer = ''water'', fs_type = PrimPolygon,
                                       fs_vertices = []\<rparr>])])
         (4, 4, 3)
       = Some [\<lparr>fs_layer = ''water'', fs_type = PrimPolygon, fs_vertices = []\<rparr>]
   \<and> getPlaceholderTile
         (cacheOf [((4, 4, 3), Data []), ((2, 2, 2), Data []),
                   ((1, 1, 1), Data [\<lparr>fs_layer = ''water'', fs_type = PrimPolygon,
                                       fs_vertices = []\<rparr>])])
         (4, 4, 3) = []
   \<and> drawFeatureSets
         (cacheOf [((4, 4, 3), Data []), ((2, 2, 2), Data []),
                   ((1, 1, 1), Data [\<lparr>fs_layer = ''water'', fs_type = PrimPolygon,
                                       fs_vertices = []\<rparr>])])
         (4, 4, 3)
       \<noteq> spec_getOrPlaceholder
           (cacheOf [((4, 4, 3), Data []), ((2, 2, 2), Data []),
                     ((1, 1, 1), Data [\<lparr>fs_layer = ''water'', fs_type = PrimPolygon,
                                         fs_vertices = []\<rparr>])])
           (4, 4, 3)"
proof -
  let ?fs = "\<lparr>fs_layer = ''water'', fs_type = PrimPolygon, fs_vertices = []\<rparr>"
  let ?cache = "cacheOf [((4, 4, 3), Data []), ((2, 2, 2), Data []), ((1, 1, 1), Data [?fs])]"
  have entries:
    "getTile ?cache ''4/4/3'' = Data []" "getTile ?cache ''2/2/2'' = Data []"
    "getTile ?cache ''1/1/1'' = Data [?fs]"
    "getTile ?cache ''8/8/4'' = Undefined" "getTile ?cache ''9/8/4'' = Undefined"
    "getTile ?cache ''9/9/4'' = Undefined" "getTile ?cache ''8/9/4'' = Undefined"
    by (simp_all add: cacheOf_def joinTile_examples getTile_setTile, simp_all add: getTile_def)
  have pending: "getTile ?cache (joinTile (4, 4, 3)) = Data []"
    by (simp add: joinTile_examples entries)
  have "spec_nearestAncestor ?cache (2, 2, 2) = Some [?fs]"
    by (subst spec_nearestAncestor.simps) (simp add: getParent_def joinTile_examples entries)
  then have ancestor: "spec_nearestAncestor ?cache (4, 4, 3) = Some [?fs]"
    by (subst spec_nearestAncestor.simps) (simp add: getParent_def joinTile_examples entries)
  have code: "getPlaceholderTile ?cache (4, 4, 3) = []"
    by (simp add: getPlaceholderTile_closed_form getParent_def getChildren_def
        joinTile_examples entries)
  have "drawFeatureSets ?cache (4, 4, 3) = []"
    using pending code by (simp add: drawFeatureSets_def)
  moreover have "spec_getOrPlaceholder ?cache (4, 4, 3) = [?fs]"
    by (simp add: spec_getOrPlaceholder_def ancestor)
  ultimately have "drawFeatureSets ?cache (4, 4, 3) \<noteq> spec_getOrPlaceholder ?cache (4, 4, 3)"
    by simp
  with pending ancestor code show ?thesis
    by (simp only: simp_thms)
qed

section \<open>A tile resolved with no feature sets\<close>

text \<open>
  When the worker's reply for a key carries an empty \<open>tileData\<close> (the tile holds none of the
  requested layers), the entry is the same empty array as the hold of a pending request:
  \<open>draw\<close> keeps rendering the placeholder for it, and no later pass requests the key again.
\<close>

theorem empty_result_is_held:
  "drawFeatureSets (tiles (handleTileWorker m (joinTile t, Data []))) t
     = getPlaceholderTile (tiles (handleTileWorker m (joinTile t, Data []))) t
   \<and> joinTile t \<notin> msg_tile ` set (dispatched ptt (handleTileWorker m (joinTile t, Data [])))"
proof
  have entry: "getTile (tiles (handleTileWorker m (joinTile t, Data []))) (joinTile t) = Data []"
    by (simp add: handleTileWorker_def getTile_setTile)
  then show "drawFeatureSets (tiles (handleTileWorker m (joinTile t, Data []))) t
     = getPlaceholderTile (tiles (handleTileWorker m (joinTile t, Data []))) t"
    by (simp add: drawFeatureSets_def)
  from entry have "truthy (getTile (tiles (handleTileWorker m (joinTile t, Data []))) (joinTile t))"
    by simp
  then show "joinTile t \<notin> msg_tile ` set (dispatched ptt (handleTileWorker m (joinTile t, Data [])))"
    by (rule held_not_dispatched)
qed

end
